theory Spec2Isabelle
  imports Complex_Main "HOL-Library.Log_Nat"
begin

section \<open>JavaScript numbers\<close>

text \<open>
  Every number of the program is an IEEE-754 binary64 value.  \<open>Fin q\<close> is the finite
  double whose exact value is the rational \<open>q\<close>; the two zeros are not told apart (the
  program never divides by a variable and never prints a sign of zero).  Arithmetic is
  the exact operation on the values followed by \<open>fl\<close>, rounding to the nearest double,
  ties to the even significand, with gradual underflow and overflow to infinity.
\<close>

datatype number = Fin rat | PosInf | NegInf | NaN

definition pow2 :: "int \<Rightarrow> rat" where
  "pow2 e = (if 0 \<le> e then 2 ^ nat e else 1 / 2 ^ nat (- e))"

definition ilog2 :: "rat \<Rightarrow> int" where
  \<comment> \<open>the integer part of the binary logarithm of a positive rational\<close>
  "ilog2 a = (if 1 \<le> a then bitlen \<lfloor>a\<rfloor> - 1 else - bitlen (\<lceil>1 / a\<rceil> - 1))"

definition round_half_even :: "rat \<Rightarrow> int" where
  "round_half_even y =
     (let f = \<lfloor>y\<rfloor>; d = y - of_int f
      in if d < 1 / 2 then f else if 1 / 2 < d then f + 1 else if even f then f else f + 1)"

definition fl :: "rat \<Rightarrow> number" where
  \<comment> \<open>53 significant bits, least exponent \<open>-1074\<close>, overflow from \<open>2 ^ 1024\<close> on\<close>
  "fl x =
     (if x = 0 then Fin 0
      else let a = \<bar>x\<bar>;
               e = max (ilog2 a - 52) (- 1074);
               r = of_int (round_half_even (a / pow2 e)) * pow2 e
           in if (2::int) ^ 1024 \<le> \<lfloor>r\<rfloor> then (if 0 < x then PosInf else NegInf)
              else Fin (if 0 < x then r else - r))"

fun sign_of :: "number \<Rightarrow> rat" where
  "sign_of (Fin a) = sgn a"
| "sign_of PosInf = 1"
| "sign_of NegInf = - 1"
| "sign_of NaN = 0"

definition signed_inf :: "rat \<Rightarrow> number" where
  "signed_inf s = (if 0 < s then PosInf else if s < 0 then NegInf else NaN)"

fun times_num :: "number \<Rightarrow> number \<Rightarrow> number" where
  "times_num NaN y = NaN"
| "times_num x NaN = NaN"
| "times_num (Fin a) (Fin b) = fl (a * b)"
| "times_num x y = signed_inf (sign_of x * sign_of y)"

fun divide_num :: "number \<Rightarrow> number \<Rightarrow> number" where
  "divide_num NaN y = NaN"
| "divide_num x NaN = NaN"
| "divide_num (Fin a) (Fin b) = (if b = 0 then signed_inf (sgn a) else fl (a / b))"
| "divide_num (Fin a) y = Fin 0"
| "divide_num x (Fin b) = signed_inf (sign_of x * (if b < 0 then - 1 else 1))"
| "divide_num x y = NaN"

fun plus_num :: "number \<Rightarrow> number \<Rightarrow> number" where
  "plus_num NaN y = NaN"
| "plus_num x NaN = NaN"
| "plus_num (Fin a) (Fin b) = fl (a + b)"
| "plus_num (Fin a) y = y"
| "plus_num x (Fin b) = x"
| "plus_num x y = (if x = y then x else NaN)"

fun less_num :: "number \<Rightarrow> number \<Rightarrow> bool" where
  "less_num NaN y = False"
| "less_num x NaN = False"
| "less_num (Fin a) (Fin b) = (a < b)"
| "less_num x PosInf = (x \<noteq> PosInf)"
| "less_num NegInf y = (y \<noteq> NegInf)"
| "less_num x y = False"

definition Math_max :: "number \<Rightarrow> number \<Rightarrow> number" where
  "Math_max x y = (if x = NaN \<or> y = NaN then NaN else if less_num x y then y else x)"

definition Math_min :: "number \<Rightarrow> number \<Rightarrow> number" where
  "Math_min x y = (if x = NaN \<or> y = NaN then NaN else if less_num y x then y else x)"

fun Math_round :: "number \<Rightarrow> number" where
  \<comment> \<open>the nearest integer, a tie going up; exact on every double\<close>
  "Math_round (Fin a) = Fin (of_int \<lfloor>a + 1 / 2\<rfloor>)"
| "Math_round x = x"

definition round2 :: "number \<Rightarrow> number" where
  \<comment> \<open>\<^verbatim>\<open>Math.round(x * 100) / 100\<close>; an integer literal below \<open>2 ^ 53\<close> is an exact double\<close>
  "round2 x = divide_num (Math_round (times_num x (Fin 100))) (Fin 100)"

definition truthy_num :: "number \<Rightarrow> bool" where
  "truthy_num x = (x \<noteq> Fin 0 \<and> x \<noteq> NaN)"

definition nonneg :: "number \<Rightarrow> bool" where
  "nonneg x = (case x of Fin a \<Rightarrow> 0 \<le> a | PosInf \<Rightarrow> True | _ \<Rightarrow> False)"

section \<open>JavaScript strings\<close>

text \<open>
  A string is a list of characters.  ASCII behaves as in JavaScript, and so does the
  no-break space U+00A0, which is white space; any other character beyond ASCII is
  neither a letter, a digit nor white space, and has no other case.
\<close>

definition is_upper :: "char \<Rightarrow> bool" where
  "is_upper c = (65 \<le> (of_char c :: nat) \<and> (of_char c :: nat) \<le> 90)"

definition is_az :: "char \<Rightarrow> bool" where
  "is_az c = (97 \<le> (of_char c :: nat) \<and> (of_char c :: nat) \<le> 122)"

definition is_digit :: "char \<Rightarrow> bool" where
  "is_digit c = (48 \<le> (of_char c :: nat) \<and> (of_char c :: nat) \<le> 57)"

definition is_space :: "char \<Rightarrow> bool" where
  \<comment> \<open>the members of \<^verbatim>\<open>\s\<close> up to U+00FF, which are also what \<^verbatim>\<open>trim\<close> removes\<close>
  "is_space c = ((of_char c :: nat) \<in> {9, 10, 11, 12, 13, 32, 160})"

definition lower_char :: "char \<Rightarrow> char" where
  "lower_char c = (if is_upper c then char_of ((of_char c :: nat) + 32) else c)"

definition toLowerCase :: "string \<Rightarrow> string" where
  "toLowerCase s = map lower_char s"

definition trim :: "string \<Rightarrow> string" where
  "trim s = rev (dropWhile is_space (rev (dropWhile is_space s)))"

fun startsWith :: "string \<Rightarrow> string \<Rightarrow> bool" where
  "startsWith s [] = True"
| "startsWith [] (k # ks) = False"
| "startsWith (c # cs) (k # ks) = (c = k \<and> startsWith cs ks)"

fun str_includes :: "string \<Rightarrow> string \<Rightarrow> bool" where
  \<comment> \<open>\<^verbatim>\<open>s.includes(k)\<close>: \<open>k\<close> occurs in \<open>s\<close> as a contiguous run\<close>
  "str_includes [] k = (k = [])"
| "str_includes (c # cs) k = (startsWith (c # cs) k \<or> str_includes cs k)"

section \<open>carbonService.ts\<close>

record EmissionsFactor =
  carbon_per_kg :: number
  category :: string

definition CARBON_DATA :: "(string \<times> EmissionsFactor) list" where
  \<comment> \<open>in declaration order, which is the order \<^verbatim>\<open>Object.entries\<close> walks\<close>
  "CARBON_DATA =
   [(''beef'', \<lparr>carbon_per_kg = Fin 60, category = ''meat''\<rparr>),
    (''lamb'', \<lparr>carbon_per_kg = fl (392 / 10), category = ''meat''\<rparr>),
    (''pork'', \<lparr>carbon_per_kg = fl (121 / 10), category = ''meat''\<rparr>),
    (''chicken'', \<lparr>carbon_per_kg = fl (69 / 10), category = ''meat''\<rparr>),
    (''turkey'', \<lparr>carbon_per_kg = fl (109 / 10), category = ''meat''\<rparr>),
    (''fish'', \<lparr>carbon_per_kg = fl (61 / 10), category = ''seafood''\<rparr>),
    (''salmon'', \<lparr>carbon_per_kg = fl (119 / 10), category = ''seafood''\<rparr>),
    (''tuna'', \<lparr>carbon_per_kg = fl (61 / 10), category = ''seafood''\<rparr>),
    (''shrimp'', \<lparr>carbon_per_kg = fl (182 / 10), category = ''seafood''\<rparr>),
    (''eggs'', \<lparr>carbon_per_kg = fl (42 / 10), category = ''dairy''\<rparr>),
    (''cheese'', \<lparr>carbon_per_kg = fl (135 / 10), category = ''dairy''\<rparr>),
    (''milk'', \<lparr>carbon_per_kg = fl (32 / 10), category = ''dairy''\<rparr>),
    (''yogurt'', \<lparr>carbon_per_kg = fl (22 / 10), category = ''dairy''\<rparr>),
    (''butter'', \<lparr>carbon_per_kg = fl (238 / 10), category = ''dairy''\<rparr>),
    (''rice'', \<lparr>carbon_per_kg = fl (27 / 10), category = ''grains''\<rparr>),
    (''wheat'', \<lparr>carbon_per_kg = fl (14 / 10), category = ''grains''\<rparr>),
    (''bread'', \<lparr>carbon_per_kg = fl (16 / 10), category = ''grains''\<rparr>),
    (''pasta'', \<lparr>carbon_per_kg = fl (14 / 10), category = ''grains''\<rparr>),
    (''potatoes'', \<lparr>carbon_per_kg = fl (5 / 10), category = ''vegetables''\<rparr>),
    (''quinoa'', \<lparr>carbon_per_kg = fl (18 / 10), category = ''grains''\<rparr>),
    (''oats'', \<lparr>carbon_per_kg = fl (16 / 10), category = ''grains''\<rparr>),
    (''tomatoes'', \<lparr>carbon_per_kg = fl (21 / 10), category = ''vegetables''\<rparr>),
    (''onions'', \<lparr>carbon_per_kg = fl (5 / 10), category = ''vegetables''\<rparr>),
    (''carrots'', \<lparr>carbon_per_kg = fl (4 / 10), category = ''vegetables''\<rparr>),
    (''broccoli'', \<lparr>carbon_per_kg = Fin 4, category = ''vegetables''\<rparr>),
    (''spinach'', \<lparr>carbon_per_kg = Fin 2, category = ''vegetables''\<rparr>),
    (''lettuce'', \<lparr>carbon_per_kg = fl (13 / 10), category = ''vegetables''\<rparr>),
    (''bell peppers'', \<lparr>carbon_per_kg = fl (28 / 10), category = ''vegetables''\<rparr>),
    (''mushrooms'', \<lparr>carbon_per_kg = fl (33 / 10), category = ''vegetables''\<rparr>),
    (''beans'', \<lparr>carbon_per_kg = Fin 2, category = ''legumes''\<rparr>),
    (''lentils'', \<lparr>carbon_per_kg = fl (9 / 10), category = ''legumes''\<rparr>),
    (''chickpeas'', \<lparr>carbon_per_kg = Fin 1, category = ''legumes''\<rparr>),
    (''almonds'', \<lparr>carbon_per_kg = fl (88 / 10), category = ''nuts''\<rparr>),
    (''peanuts'', \<lparr>carbon_per_kg = fl (32 / 10), category = ''nuts''\<rparr>),
    (''olive oil'', \<lparr>carbon_per_kg = fl (54 / 10), category = ''oils''\<rparr>),
    (''vegetable oil'', \<lparr>carbon_per_kg = fl (38 / 10), category = ''oils''\<rparr>),
    (''coconut oil'', \<lparr>carbon_per_kg = fl (64 / 10), category = ''oils''\<rparr>),
    (''spices'', \<lparr>carbon_per_kg = Fin 2, category = ''seasonings''\<rparr>),
    (''herbs'', \<lparr>carbon_per_kg = fl (15 / 10), category = ''seasonings''\<rparr>),
    (''garlic'', \<lparr>carbon_per_kg = fl (6 / 10), category = ''seasonings''\<rparr>),
    (''ginger'', \<lparr>carbon_per_kg = fl (8 / 10), category = ''seasonings''\<rparr>),
    (''sugar'', \<lparr>carbon_per_kg = fl (18 / 10), category = ''sweeteners''\<rparr>),
    (''honey'', \<lparr>carbon_per_kg = fl (14 / 10), category = ''sweeteners''\<rparr>),
    (''apples'', \<lparr>carbon_per_kg = fl (4 / 10), category = ''fruits''\<rparr>),
    (''bananas'', \<lparr>carbon_per_kg = fl (7 / 10), category = ''fruits''\<rparr>),
    (''oranges'', \<lparr>carbon_per_kg = fl (4 / 10), category = ''fruits''\<rparr>),
    (''lemons'', \<lparr>carbon_per_kg = fl (5 / 10), category = ''fruits''\<rparr>),
    (''coconut'', \<lparr>carbon_per_kg = fl (17 / 10), category = ''fruits''\<rparr>)]"

text \<open>
  \<^verbatim>\<open>CARBON_DATA\<close> is an object literal, so \<^verbatim>\<open>CARBON_DATA[k]\<close> also finds what the
  object inherits from \<^verbatim>\<open>Object.prototype\<close>: functions (and, for \<^verbatim>\<open>__proto__\<close>, the
  prototype itself), all truthy, none with a \<^verbatim>\<open>carbon_per_kg\<close> or a \<^verbatim>\<open>category\<close>.
\<close>

definition Object_prototype_keys :: "string list" where
  "Object_prototype_keys =
   [''constructor'', ''hasOwnProperty'', ''isPrototypeOf'', ''propertyIsEnumerable'',
    ''toLocaleString'', ''toString'', ''valueOf'', ''__proto__'',
    ''__defineGetter__'', ''__defineSetter__'', ''__lookupGetter__'', ''__lookupSetter__'']"

datatype member = Entry EmissionsFactor | Inherited

definition CARBON_DATA_at :: "string \<Rightarrow> member option" where
  \<comment> \<open>\<^verbatim>\<open>CARBON_DATA[k]\<close>; \<open>None\<close> is \<^verbatim>\<open>undefined\<close>\<close>
  "CARBON_DATA_at k =
     (case map_of CARBON_DATA k of
        Some f \<Rightarrow> Some (Entry f)
      | None \<Rightarrow> if k \<in> set Object_prototype_keys then Some Inherited else None)"

definition strip_plural :: "string \<Rightarrow> string" where
  \<comment> \<open>\<^verbatim>\<open>.replace(/s$/, '')\<close>\<close>
  "strip_plural s = (if s \<noteq> [] \<and> last s = CHR ''s'' then butlast s else s)"

definition normalizeIngredientName :: "string \<Rightarrow> string" where
  "normalizeIngredientName name =
     trim (filter (\<lambda>c. is_az c \<or> is_space c) (strip_plural (toLowerCase name)))"

definition categoryFallbacks :: "(string \<times> number) list" where
  "categoryFallbacks =
   [(''meat'', Fin 15), (''seafood'', Fin 8), (''dairy'', Fin 8), (''vegetables'', Fin 2),
    (''fruits'', fl (6 / 10)), (''grains'', fl (15 / 10)), (''legumes'', fl (15 / 10)),
    (''nuts'', Fin 6), (''oils'', fl (45 / 10)), (''seasonings'', fl (18 / 10))]"

definition categoryKeywords :: "(string \<times> string list) list" where
  "categoryKeywords =
   [(''meat'', [''meat'', ''beef'', ''pork'', ''lamb'', ''chicken'', ''turkey'', ''duck'',
                ''bacon'', ''ham'', ''sausage'']),
    (''seafood'', [''fish'', ''salmon'', ''tuna'', ''cod'', ''shrimp'', ''crab'', ''lobster'',
                   ''seafood'', ''anchovy'']),
    (''dairy'', [''milk'', ''cheese'', ''yogurt'', ''cream'', ''butter'', ''dairy'']),
    (''vegetables'', [''vegetable'', ''carrot'', ''broccoli'', ''spinach'', ''lettuce'',
                      ''tomato'', ''onion'', ''pepper'', ''cucumber'']),
    (''fruits'', [''fruit'', ''apple'', ''banana'', ''orange'', ''berry'', ''grape'', ''mango'',
                  ''pineapple'']),
    (''grains'', [''rice'', ''wheat'', ''bread'', ''pasta'', ''cereal'', ''oat'', ''barley'',
                  ''quinoa'']),
    (''legumes'', [''bean'', ''lentil'', ''pea'', ''chickpea'', ''soy'']),
    (''nuts'', [''nut'', ''almond'', ''walnut'', ''peanut'', ''cashew'', ''pecan'']),
    (''oils'', [''oil'', ''fat'', ''lard'']),
    (''seasonings'', [''spice'', ''herb'', ''salt'', ''pepper'', ''garlic'', ''ginger'',
                      ''seasoning''])]"

definition inferCategory :: "string \<Rightarrow> string option" where
  "inferCategory ingredientName =
     map_option fst
       (find (\<lambda>(category, keywords). list_ex (str_includes ingredientName) keywords)
          categoryKeywords)"

definition ultimate_fallback :: EmissionsFactor where
  "ultimate_fallback = \<lparr>carbon_per_kg = fl (25 / 10), category = ''unknown''\<rparr>"

definition findCarbonData :: "string \<Rightarrow> member" where
  "findCarbonData ingredientName =
     (case CARBON_DATA_at ingredientName of
        Some m \<Rightarrow> m
      | None \<Rightarrow>
         (case find (\<lambda>(key, v). str_includes ingredientName key \<or> str_includes key ingredientName)
                 CARBON_DATA of
            Some (key, v) \<Rightarrow> Entry v
          | None \<Rightarrow>
             (case inferCategory ingredientName of
                None \<Rightarrow> Entry ultimate_fallback
              | Some c \<Rightarrow>
                 (case map_of categoryFallbacks c of
                    Some v \<Rightarrow>
                      if truthy_num v then Entry \<lparr>carbon_per_kg = v, category = c\<rparr>
                      else Entry ultimate_fallback
                  | None \<Rightarrow> Entry ultimate_fallback))))"

definition digit_val :: "char \<Rightarrow> nat" where
  "digit_val c = of_char c - 48"

definition decimal :: "string \<Rightarrow> nat" where
  "decimal ds = foldl (\<lambda>n c. 10 * n + digit_val c) 0 ds"

fun numberMatch :: "string \<Rightarrow> (string \<times> string) option" where
  \<comment> \<open>the leftmost match of \<^verbatim>\<open>/(\d+(?:\.\d+)?)/\<close>: its integer digits and its fraction
      digits (none when the optional group does not match)\<close>
  "numberMatch [] = None"
| "numberMatch (c # cs) =
     (if is_digit c then
        Some (takeWhile is_digit (c # cs),
              case dropWhile is_digit (c # cs) of
                d # f # fs \<Rightarrow>
                  if d = CHR ''.'' \<and> is_digit f then takeWhile is_digit (f # fs) else []
              | _ \<Rightarrow> [])
      else numberMatch cs)"

definition parseFloat :: "string \<times> string \<Rightarrow> number" where
  \<comment> \<open>the double nearest to the decimal numeral\<close>
  "parseFloat m =
     (case m of (whole, fraction) \<Rightarrow>
        fl (of_nat (decimal whole) + of_nat (decimal fraction) / 10 ^ length fraction))"

definition parseQuantityToKg :: "string \<Rightarrow> number" where
  "parseQuantityToKg quantity =
     (let normalizedQuantity = toLowerCase quantity;
          baseAmount = (case numberMatch normalizedQuantity of
                          Some m \<Rightarrow> parseFloat m
                        | None \<Rightarrow> fl (1 / 10))
      in if str_includes normalizedQuantity ''kg'' then baseAmount
         else if str_includes normalizedQuantity ''g''
                 \<and> \<not> str_includes normalizedQuantity ''kg''
           then divide_num baseAmount (Fin 1000)
         else if str_includes normalizedQuantity ''lb''
                 \<or> str_includes normalizedQuantity ''pound''
           then times_num baseAmount (fl (453592 / 1000000))
         else if str_includes normalizedQuantity ''oz''
                 \<or> str_includes normalizedQuantity ''ounce''
           then times_num baseAmount (fl (283495 / 10000000))
         else if str_includes normalizedQuantity ''cup''
           then times_num baseAmount (fl (24 / 100))
         else if str_includes normalizedQuantity ''tbsp''
                 \<or> str_includes normalizedQuantity ''tablespoon''
           then times_num baseAmount (fl (15 / 1000))
         else if str_includes normalizedQuantity ''tsp''
                 \<or> str_includes normalizedQuantity ''teaspoon''
           then times_num baseAmount (fl (5 / 1000))
         else if str_includes normalizedQuantity ''small'' then fl (5 / 100)
         else if str_includes normalizedQuantity ''medium'' then fl (1 / 10)
         else if str_includes normalizedQuantity ''large'' then fl (2 / 10)
         else if str_includes normalizedQuantity ''piece''
                 \<or> str_includes normalizedQuantity ''item''
           then fl (1 / 10)
         else Math_max (fl (5 / 100))
                (Math_min (times_num baseAmount (fl (1 / 10))) (fl (5 / 10))))"

text \<open>
  TypeScript's types are erased when the program runs: what reaches
  \<^verbatim>\<open>calculateCarbonFootprint\<close> is the value \<^verbatim>\<open>JSON.parse\<close> produced (cast, unchecked, to
  \<^verbatim>\<open>LLMResponse\<close>) or a canned response.  The model therefore takes JSON values; calling
  \<^verbatim>\<open>toLowerCase\<close> on anything but a string, or reading a property of \<^verbatim>\<open>null\<close>, throws
  a \<^verbatim>\<open>TypeError\<close>.
\<close>

datatype json =
  JNull | JBool bool | JNum number | JStr string | JArr "json list"
  | JObj "(string \<times> json) list"

datatype error = Error string | TypeError | AppError string nat

definition get_prop :: "json \<Rightarrow> string \<Rightarrow> json option" where
  \<comment> \<open>reading property \<open>k\<close> of a value other than \<^verbatim>\<open>null\<close>, for a key that no
      prototype defines (every key the program reads is such); \<open>None\<close> is \<^verbatim>\<open>undefined\<close>.
      The members of an object are listed in their textual order, and a later member
      overrides an earlier one of the same key, as in \<^verbatim>\<open>JSON.parse\<close>.\<close>
  "get_prop v k = (case v of JObj kvs \<Rightarrow> map_of (rev kvs) k | _ \<Rightarrow> None)"

definition RawIngredient :: "string \<Rightarrow> string \<Rightarrow> string \<Rightarrow> json" where
  \<comment> \<open>a well-typed element of \<^verbatim>\<open>LLMResponse.ingredients\<close>\<close>
  "RawIngredient n q c =
     JObj [(''name'', JStr n), (''estimated_quantity'', JStr q), (''category'', JStr c)]"

record Ingredient =
  name :: string
  carbon_kg :: number
  quantity :: string
  ingredient_category :: "string option"

definition carbon_per_kg_of :: "member \<Rightarrow> number" where
  \<comment> \<open>\<^verbatim>\<open>carbonData.carbon_per_kg\<close> as an operand of \<^verbatim>\<open>*\<close>: \<^verbatim>\<open>undefined\<close> becomes NaN\<close>
  "carbon_per_kg_of m = (case m of Entry f \<Rightarrow> carbon_per_kg f | Inherited \<Rightarrow> NaN)"

definition category_of :: "member \<Rightarrow> string option" where
  \<comment> \<open>\<^verbatim>\<open>carbonData.category\<close>; \<open>None\<close> is \<^verbatim>\<open>undefined\<close>\<close>
  "category_of m = (case m of Entry f \<Rightarrow> Some (category f) | Inherited \<Rightarrow> None)"

definition footprint :: "json \<Rightarrow> error + Ingredient" where
  \<comment> \<open>the callback \<^verbatim>\<open>calculateCarbonFootprint\<close> maps over the list\<close>
  "footprint ingredient =
     (case ingredient of
        JNull \<Rightarrow> Inl TypeError
      | _ \<Rightarrow>
         (case get_prop ingredient ''name'' of
            Some (JStr nm) \<Rightarrow>
              (let normalizedName = normalizeIngredientName nm;
                   carbonData = findCarbonData normalizedName
               in case get_prop ingredient ''estimated_quantity'' of
                    Some (JStr q) \<Rightarrow>
                      (let estimatedWeight = parseQuantityToKg q
                       in Inr \<lparr>name = nm,
                               carbon_kg =
                                 round2 (times_num (carbon_per_kg_of carbonData) estimatedWeight),
                               quantity = q,
                               ingredient_category = category_of carbonData\<rparr>)
                  | _ \<Rightarrow> Inl TypeError)
          | _ \<Rightarrow> Inl TypeError))"

fun calculateCarbonFootprint :: "json list \<Rightarrow> error + Ingredient list" where
  "calculateCarbonFootprint [] = Inr []"
| "calculateCarbonFootprint (i # rest) =
     (case footprint i of
        Inl e \<Rightarrow> Inl e
      | Inr r \<Rightarrow>
         (case calculateCarbonFootprint rest of
            Inl e \<Rightarrow> Inl e
          | Inr rs \<Rightarrow> Inr (r # rs)))"

definition getTotalCarbonFootprint :: "Ingredient list \<Rightarrow> number" where
  "getTotalCarbonFootprint ingredients =
     round2 (foldl (\<lambda>sum ingredient. plus_num sum (carbon_kg ingredient)) (Fin 0) ingredients)"

section \<open>llmService.ts and visionService.ts\<close>

definition truthy :: "json \<Rightarrow> bool" where
  "truthy v =
     (case v of
        JNull \<Rightarrow> False
      | JBool b \<Rightarrow> b
      | JNum n \<Rightarrow> truthy_num n
      | JStr s \<Rightarrow> s \<noteq> []
      | JArr xs \<Rightarrow> True
      | JObj kvs \<Rightarrow> True)"

definition truthy_prop :: "json option \<Rightarrow> bool" where
  "truthy_prop p = (case p of None \<Rightarrow> False | Some v \<Rightarrow> truthy v)"

definition typeof_object :: "json \<Rightarrow> bool" where
  \<comment> \<open>\<^verbatim>\<open>typeof v === 'object'\<close>\<close>
  "typeof_object v = (case v of JNull \<Rightarrow> True | JArr xs \<Rightarrow> True | JObj kvs \<Rightarrow> True | _ \<Rightarrow> False)"

fun check_ingredients :: "json list \<Rightarrow> error + unit" where
  \<comment> \<open>the \<^verbatim>\<open>for (const ingredient of response.ingredients)\<close> loop of both validators\<close>
  "check_ingredients [] = Inr ()"
| "check_ingredients (ingredient # rest) =
     (case ingredient of
        JNull \<Rightarrow> Inl TypeError
      | _ \<Rightarrow>
         if \<not> truthy_prop (get_prop ingredient ''name'')
            \<or> \<not> truthy_prop (get_prop ingredient ''estimated_quantity'')
            \<or> \<not> truthy_prop (get_prop ingredient ''category'')
         then Inl (Error ''Each ingredient must have name, estimated_quantity, and category'')
         else check_ingredients rest)"

definition check_confidence :: "json \<Rightarrow> error + unit \<Rightarrow> error + unit" where
  "check_confidence response continue =
     (case get_prop response ''confidence'' of
        Some (JNum c) \<Rightarrow>
          if less_num c (Fin 0) \<or> less_num (Fin 1) c
          then Inl (Error ''Confidence must be a number between 0 and 1'')
          else continue
      | _ \<Rightarrow> Inl (Error ''Confidence must be a number between 0 and 1''))"

definition validateLLMResponse :: "json \<Rightarrow> error + unit" where
  "validateLLMResponse response =
     (if \<not> truthy response \<or> \<not> typeof_object response
      then Inl (Error ''Invalid response format'')
      else case get_prop response ''ingredients'' of
             Some (JArr xs) \<Rightarrow> check_confidence response (check_ingredients xs)
           | _ \<Rightarrow> Inl (Error ''Ingredients must be an array''))"

definition validateVisionResponse :: "json \<Rightarrow> error + unit" where
  "validateVisionResponse response =
     (if \<not> truthy response \<or> \<not> typeof_object response
      then Inl (Error ''Invalid response format'')
      else case get_prop response ''dish_name'' of
             Some (JStr d) \<Rightarrow>
               if d = [] then Inl (Error ''dish_name must be a string'')
               else (case get_prop response ''ingredients'' of
                       Some (JArr xs) \<Rightarrow> check_confidence response (check_ingredients xs)
                     | _ \<Rightarrow> Inl (Error ''Ingredients must be an array''))
           | _ \<Rightarrow> Inl (Error ''dish_name must be a string''))"

definition LLMResponse :: "json list \<Rightarrow> number \<Rightarrow> json" where
  "LLMResponse xs c = JObj [(''ingredients'', JArr xs), (''confidence'', JNum c)]"

definition pizza_response :: json where
  "pizza_response =
     LLMResponse
       [RawIngredient ''wheat flour'' ''150g'' ''grains'',
        RawIngredient ''mozzarella cheese'' ''100g'' ''dairy'',
        RawIngredient ''tomato sauce'' ''80g'' ''vegetables'',
        RawIngredient ''olive oil'' ''15g'' ''oils'',
        RawIngredient ''herbs'' ''5g'' ''seasonings'']
       (fl (75 / 100))"

definition burger_response :: json where
  "burger_response =
     LLMResponse
       [RawIngredient ''beef'' ''150g'' ''meat'',
        RawIngredient ''bread'' ''80g'' ''grains'',
        RawIngredient ''cheese'' ''30g'' ''dairy'',
        RawIngredient ''lettuce'' ''20g'' ''vegetables'',
        RawIngredient ''tomatoes'' ''30g'' ''vegetables'',
        RawIngredient ''onions'' ''15g'' ''vegetables'']
       (fl (8 / 10))"

definition pasta_response :: json where
  "pasta_response =
     LLMResponse
       [RawIngredient ''pasta'' ''100g'' ''grains'',
        RawIngredient ''tomato sauce'' ''120g'' ''vegetables'',
        RawIngredient ''olive oil'' ''15g'' ''oils'',
        RawIngredient ''garlic'' ''5g'' ''seasonings'',
        RawIngredient ''herbs'' ''3g'' ''seasonings'']
       (fl (7 / 10))"

definition generic_response :: json where
  "generic_response =
     LLMResponse
       [RawIngredient ''mixed ingredients'' ''200g'' ''unknown'',
        RawIngredient ''cooking oil'' ''10g'' ''oils'',
        RawIngredient ''seasonings'' ''5g'' ''seasonings'']
       (fl (5 / 10))"

definition fallbackResponses :: "(string \<times> json) list" where
  "fallbackResponses =
     [(''pizza'', pizza_response), (''burger'', burger_response), (''pasta'', pasta_response)]"

definition getFallbackResponse :: "string \<Rightarrow> json" where
  "getFallbackResponse dishName =
     (let normalizedDish = toLowerCase dishName
      in case find (\<lambda>(pattern, response). str_includes normalizedDish pattern)
                fallbackResponses of
           Some (pattern, response) \<Rightarrow> response
         | None \<Rightarrow> generic_response)"

text \<open>
  What the awaited completion call and \<^verbatim>\<open>JSON.parse\<close> leave \<^verbatim>\<open>analyzeDish\<close> with: the call
  throws, the message has no content, the content is not JSON, or it parses to a value.
\<close>

datatype completion = CallThrows | NoContent | NotJSON | Payload json

definition analyzeDish :: "string \<Rightarrow> completion \<Rightarrow> json" where
  "analyzeDish dishName outcome =
     (case outcome of
        Payload parsedResponse \<Rightarrow>
          (case validateLLMResponse parsedResponse of
             Inr u \<Rightarrow> parsedResponse
           | Inl e \<Rightarrow> getFallbackResponse dishName)
      | _ \<Rightarrow> getFallbackResponse dishName)"

section \<open>The batch route\<close>

record Estimate =
  dish :: string
  error_marker :: "string option"
  estimated_carbon_kg :: number
  ingredients :: "Ingredient list"
  confidence :: "json option"
  methodology :: "string option"

definition process_dish :: "string \<Rightarrow> completion \<Rightarrow> error + Estimate" where
  \<comment> \<open>the body of the \<^verbatim>\<open>async\<close> callback; \<open>Inl\<close> is a rejected promise\<close>
  "process_dish d outcome =
     (let sanitizedDish = trim d;
          llmResponse = analyzeDish sanitizedDish outcome
      in case get_prop llmResponse ''ingredients'' of
           Some (JArr xs) \<Rightarrow>
             (case calculateCarbonFootprint xs of
                Inl e \<Rightarrow> Inl e
              | Inr resolved \<Rightarrow>
                  Inr \<lparr>dish = sanitizedDish,
                       error_marker = None,
                       estimated_carbon_kg = getTotalCarbonFootprint resolved,
                       ingredients = resolved,
                       confidence = get_prop llmResponse ''confidence'',
                       methodology = Some ''LLM ingredient inference + carbon database lookup''\<rparr>)
         | _ \<Rightarrow> Inl TypeError)"

definition settle :: "string \<Rightarrow> completion \<Rightarrow> Estimate" where
  \<comment> \<open>one entry of \<^verbatim>\<open>Promise.allSettled\<close>, formatted by \<^verbatim>\<open>results.map\<close>\<close>
  "settle d outcome =
     (case process_dish d outcome of
        Inr v \<Rightarrow> v
      | Inl e \<Rightarrow>
          \<lparr>dish = d,
           error_marker = Some ''Failed to process dish'',
           estimated_carbon_kg = Fin 0,
           ingredients = [],
           confidence = Some (JNum (Fin 0)),
           methodology = None\<rparr>)"

definition valid_dish :: "json \<Rightarrow> bool" where
  \<comment> \<open>the negation of \<^verbatim>\<open>!dish || typeof dish !== 'string' || dish.trim().length === 0\<close>\<close>
  "valid_dish v = (case v of JStr s \<Rightarrow> s \<noteq> [] \<and> trim s \<noteq> [] | _ \<Rightarrow> False)"

definition dish_text :: "json \<Rightarrow> string" where
  "dish_text v = (case v of JStr s \<Rightarrow> s | _ \<Rightarrow> [])"

definition estimate_batch :: "json \<Rightarrow> (nat \<Rightarrow> completion) \<Rightarrow> error + Estimate list" where
  \<comment> \<open>\<open>outcomes i\<close> is what the completion call made for the dish at index \<open>i\<close> comes to\<close>
  "estimate_batch body outcomes =
     (case get_prop body ''dishes'' of
        Some (JArr dishes) \<Rightarrow>
          if dishes = [] then Inl (AppError ''Dishes array is required and cannot be empty'' 400)
          else if 10 < length dishes
            then Inl (AppError ''Maximum 10 dishes allowed per batch request'' 400)
          else if \<not> list_all valid_dish dishes
            then Inl (AppError ''Each dish must be a non-empty string'' 400)
          else Inr (map (\<lambda>i. settle (dish_text (dishes ! i)) (outcomes i)) [0 ..< length dishes])
      | _ \<Rightarrow> Inl (AppError ''Dishes array is required and cannot be empty'' 400))"

section \<open>Vocabulary of the statements\<close>

definition unit_keywords :: "string list" where
  \<comment> \<open>the unit keywords \<^verbatim>\<open>parseQuantityToKg\<close> tests before the size words\<close>
  "unit_keywords =
     [''kg'', ''g'', ''lb'', ''pound'', ''oz'', ''ounce'', ''cup'', ''tbsp'', ''tablespoon'',
      ''tsp'', ''teaspoon'']"

definition quantity_keywords :: "string list" where
  \<comment> \<open>every keyword \<^verbatim>\<open>parseQuantityToKg\<close> tests\<close>
  "quantity_keywords = unit_keywords @ [''small'', ''medium'', ''large'', ''piece'', ''item'']"

definition numeral_value :: "string \<times> string \<Rightarrow> rat" where
  \<comment> \<open>the exact value of a matched decimal numeral, before \<^verbatim>\<open>parseFloat\<close> rounds it\<close>
  "numeral_value m =
     (case m of (whole, fraction) \<Rightarrow>
        of_nat (decimal whole) + of_nat (decimal fraction) / 10 ^ length fraction)"

definition first_number :: "string \<Rightarrow> rat option" where
  \<comment> \<open>the exact value of the first number in the quantity, if it contains a digit\<close>
  "first_number s = map_option numeral_value (numberMatch (toLowerCase s))"

definition has_unit_keyword :: "string \<Rightarrow> bool" where
  \<comment> \<open>the lower-cased quantity contains one of the unit keywords\<close>
  "has_unit_keyword s = list_ex (str_includes (toLowerCase s)) unit_keywords"

definition inference_failed :: "completion \<Rightarrow> bool" where
  \<comment> \<open>the completion call fails, or its payload is rejected by the validator\<close>
  "inference_failed outcome =
     (case outcome of Payload j \<Rightarrow> isl (validateLLMResponse j) | _ \<Rightarrow> True)"

definition failed_estimate :: "string \<Rightarrow> Estimate" where
  \<comment> \<open>the entry the batch route writes for a rejected promise\<close>
  "failed_estimate d =
     \<lparr>dish = d, error_marker = Some ''Failed to process dish'', estimated_carbon_kg = Fin 0,
      ingredients = [], confidence = Some (JNum (Fin 0)), methodology = None\<rparr>"

definition untyped_payload :: json where
  \<comment> \<open>\<^verbatim>\<open>{"ingredients": [{"name": "rice", "estimated_quantity": 200, "category": "grains"}],
      "confidence": 0.9}\<close>: the quantity is a number, not a string\<close>
  "untyped_payload =
     JObj [(''ingredients'',
            JArr [JObj [(''name'', JStr ''rice''), (''estimated_quantity'', JNum (Fin 200)),
                        (''category'', JStr ''grains'')]]),
           (''confidence'', JNum (fl (9 / 10)))]"

definition batch_body :: json where
  "batch_body = JObj [(''dishes'', JArr [JStr ''Rice bowl'', JStr ''Pizza Margherita''])]"

definition batch_outcomes :: "nat \<Rightarrow> completion" where
  "batch_outcomes i = (if i = 0 then Payload untyped_payload else CallThrows)"

section \<open>Evaluation of the number model\<close>

lemma floor_rat_numeral_div: "\<lfloor>(numeral a :: rat) / numeral b\<rfloor> = numeral a div numeral b"
  by (metis floor_divide_of_int_eq of_int_numeral)

lemma ceiling_rat_numeral_div:
  "\<lceil>(numeral a :: rat) / numeral b\<rceil> = - (- numeral a div numeral b)"
  by (metis ceiling_def floor_divide_of_int_eq minus_divide_left of_int_minus of_int_numeral)

lemma bitlen_One: "bitlen 1 = 1"
  by (subst compute_bitlen) simp

lemma bitlen_Bit0: "bitlen (numeral (Num.Bit0 n)) = bitlen (numeral n) + 1"
  by (subst compute_bitlen) simp

lemma bitlen_Bit1: "bitlen (numeral (Num.Bit1 n)) = bitlen (numeral n) + 1"
  by (subst compute_bitlen) simp

lemmas fl_eval =
  fl_def ilog2_def pow2_def round_half_even_def Let_def bitlen_One bitlen_Bit0 bitlen_Bit1
  floor_rat_numeral_div ceiling_rat_numeral_div

section \<open>The name normalizer\<close>

lemma lower_char_keep: "is_az c \<or> is_space c \<Longrightarrow> lower_char c = c"
  by (auto simp: lower_char_def is_upper_def is_az_def is_space_def)

lemma set_trim: "x \<in> set (trim s) \<Longrightarrow> x \<in> set s"
  unfolding trim_def by (auto dest!: set_dropWhileD)

lemma trim_fixed:
  assumes "s = [] \<or> (\<not> is_space (hd s) \<and> \<not> is_space (last s))"
  shows "trim s = s"
proof (cases "s = []")
  case True
  then show ?thesis by (simp add: trim_def)
next
  case False
  with assms have h: "\<not> is_space (hd s)" and l: "\<not> is_space (last s)" by auto
  from False h have a: "dropWhile is_space s = s"
    by (cases s) auto
  from False l have b: "dropWhile is_space (rev s) = rev s"
    by (cases "rev s") (auto simp: last_rev hd_rev)
  show ?thesis by (simp add: trim_def a b)
qed

lemma last_dropWhile_eq: "dropWhile P xs \<noteq> [] \<Longrightarrow> last (dropWhile P xs) = last xs"
  by (induction xs) (auto split: if_splits)

lemma trim_ends:
  "trim s = [] \<or> (\<not> is_space (hd (trim s)) \<and> \<not> is_space (last (trim s)))"
proof (cases "trim s = []")
  case True
  then show ?thesis by simp
next
  case False
  define t where "t = dropWhile is_space s"
  define u where "u = dropWhile is_space (rev t)"
  have ts: "trim s = rev u" by (simp add: trim_def t_def u_def)
  with False have u: "u \<noteq> []" by simp
  then have t: "t \<noteq> []" by (auto simp: u_def)
  have "\<not> is_space (hd u)" using u unfolding u_def by (rule hd_dropWhile)
  then have l: "\<not> is_space (last (trim s))" using u by (simp add: ts last_rev)
  have "last u = last (rev t)" using u unfolding u_def by (rule last_dropWhile_eq)
  also have "\<dots> = hd t" using t by (simp add: last_rev)
  finally have "hd (trim s) = hd t" using u by (simp add: ts hd_rev)
  moreover have "\<not> is_space (hd t)" using t unfolding t_def by (rule hd_dropWhile)
  ultimately show ?thesis using l by simp
qed

lemma normalized_chars: "c \<in> set (normalizeIngredientName x) \<Longrightarrow> is_az c \<or> is_space c"
  unfolding normalizeIngredientName_def by (auto dest!: set_trim)

lemma strip_plural_set: "c \<in> set (strip_plural s) \<Longrightarrow> c \<in> set s"
  by (auto simp: strip_plural_def dest: in_set_butlastD split: if_splits)

lemma normalize_again:
  "normalizeIngredientName (normalizeIngredientName x)
     = trim (strip_plural (normalizeIngredientName x))"
proof -
  let ?y = "normalizeIngredientName x"
  have keep: "\<forall>c \<in> set ?y. is_az c \<or> is_space c"
    using normalized_chars by blast
  then have low: "toLowerCase ?y = ?y"
    by (simp add: toLowerCase_def lower_char_keep map_idI)
  have "\<forall>c \<in> set (strip_plural ?y). is_az c \<or> is_space c"
    using keep strip_plural_set by blast
  then have "filter (\<lambda>c. is_az c \<or> is_space c) (strip_plural ?y) = strip_plural ?y"
    by (simp add: filter_id_conv)
  then show ?thesis
    by (simp add: normalizeIngredientName_def[of ?y] low)
qed

text \<open>
  Claim C8, as stated: the normalizer is idempotent.  It is not: the pattern \<^verbatim>\<open>/s$/\<close>
  removes one trailing "s" on every pass, so "Watercress" normalizes to "watercres"
  and that key normalizes to "watercre".
\<close>

theorem normalizeIngredientName_not_idempotent:
  "normalizeIngredientName (normalizeIngredientName ''Watercress'')
     \<noteq> normalizeIngredientName ''Watercress''"
  by code_simp

text \<open>
  Claim C8, as amended: normalizing an already normalized key returns it unchanged
  unless the key ends in "s"; a key that ends in "s" loses that one letter more and is
  trimmed again.
\<close>

theorem normalizeIngredientName_twice:
  "normalizeIngredientName (normalizeIngredientName x)
     = (if normalizeIngredientName x \<noteq> [] \<and> last (normalizeIngredientName x) = CHR ''s''
        then trim (butlast (normalizeIngredientName x))
        else normalizeIngredientName x)"
proof -
  have "trim (normalizeIngredientName x) = normalizeIngredientName x"
    by (rule trim_fixed) (simp add: normalizeIngredientName_def trim_ends)
  then show ?thesis
    by (auto simp: normalize_again strip_plural_def trim_def)
qed

theorem normalizeIngredientName_twice_witness:
  "normalizeIngredientName (normalizeIngredientName ''Eggs'') = normalizeIngredientName ''Eggs''
   \<and> normalizeIngredientName (normalizeIngredientName ''Watercress'') = ''watercre''"
proof -
  have a: "normalizeIngredientName ''Eggs'' = ''egg''"
    by code_simp
  have b: "normalizeIngredientName ''Watercress'' = ''watercres''"
    by code_simp
  have c: "trim ''watercre'' = ''watercre''"
    by code_simp
  show ?thesis
    using normalizeIngredientName_twice[of "''Eggs''"]
      normalizeIngredientName_twice[of "''Watercress''"]
    by (simp add: a b c)
qed

section \<open>The resolution chain\<close>

lemmas chain_eval =
  findCarbonData_def CARBON_DATA_at_def CARBON_DATA_def Object_prototype_keys_def
  inferCategory_def categoryKeywords_def categoryFallbacks_def

lemma footprint_RawIngredient:
  "footprint (RawIngredient n q c) =
     Inr \<lparr>name = n,
          carbon_kg =
            round2 (times_num (carbon_per_kg_of (findCarbonData (normalizeIngredientName n)))
                      (parseQuantityToKg q)),
          quantity = q,
          ingredient_category = category_of (findCarbonData (normalizeIngredientName n))\<rparr>"
  by (simp add: footprint_def RawIngredient_def get_prop_def Let_def)

lemma calculate_typed:
  "calculateCarbonFootprint (map (\<lambda>(n, q, c). RawIngredient n q c) xs) =
     Inr (map (\<lambda>(n, q).
            \<lparr>name = n,
             carbon_kg =
               round2 (times_num (carbon_per_kg_of (findCarbonData (normalizeIngredientName n)))
                         (parseQuantityToKg q)),
             quantity = q,
             ingredient_category = category_of (findCarbonData (normalizeIngredientName n))\<rparr>)
          (map (\<lambda>(n, q, c). (n, q)) xs))"
  by (induction xs) (auto simp: footprint_RawIngredient)

lemma findCarbonData_fallback:
  assumes "CARBON_DATA_at k = None"
    and "find (\<lambda>(key, v). str_includes k key \<or> str_includes key k) CARBON_DATA = None"
    and "inferCategory k = None"
  shows "findCarbonData k = Entry ultimate_fallback"
  using assms by (simp add: findCarbonData_def)

lemma normalize_xyzfoo123: "normalizeIngredientName ''xyzfoo123'' = ''xyzfoo''"
  by code_simp

lemma xyzfoo_direct: "CARBON_DATA_at ''xyzfoo'' = None"
  by (simp add: chain_eval)

lemma xyzfoo_partial:
  "find (\<lambda>(key, v). str_includes ''xyzfoo'' key \<or> str_includes key ''xyzfoo'') CARBON_DATA = None"
  by (simp add: chain_eval)

lemma xyzfoo_infer: "inferCategory ''xyzfoo'' = None"
  by (simp add: chain_eval)

lemma xyzfoo_chain: "findCarbonData ''xyzfoo'' = Entry ultimate_fallback"
  using xyzfoo_direct xyzfoo_partial xyzfoo_infer by (rule findCarbonData_fallback)

lemma fl_2_5: "fl (25 / 10) = Fin (5 / 2)"
  by (simp add: fl_eval)

text \<open>
  Claim C1, as stated: for the name "xyzfoo123" with the category hint "meat" the chain
  returns the fallback of the category "meat", \<open>15.0\<close>.  It does not:
  \<^verbatim>\<open>findCarbonData\<close> receives the normalized name only, category inference reads that
  name, and the hint is never looked at; the result is the absolute fallback.
\<close>

theorem category_hint_not_consulted:
  "findCarbonData (normalizeIngredientName ''xyzfoo123'')
     = Entry \<lparr>carbon_per_kg = fl (25 / 10), category = ''unknown''\<rparr>
   \<and> findCarbonData (normalizeIngredientName ''xyzfoo123'')
     \<noteq> Entry \<lparr>carbon_per_kg = Fin 15, category = ''meat''\<rparr>
   \<and> map_sum id ingredient_category (footprint (RawIngredient ''xyzfoo123'' ''100g'' ''meat''))
     = Inr (Some ''unknown'')"
  by (simp add: footprint_RawIngredient normalize_xyzfoo123 xyzfoo_chain ultimate_fallback_def
        category_of_def fl_2_5)

text \<open>
  Claim C1, as amended: an ingredient whose normalized name has no direct match, no
  partial match and no keyword-inferred category resolves to the absolute fallback,
  \<open>2.5\<close> and "unknown", whatever category hint (and quantity) it carries.
\<close>

theorem unmatched_name_absolute_fallback:
  assumes "CARBON_DATA_at (normalizeIngredientName n) = None"
    and "find (\<lambda>(key, v). str_includes (normalizeIngredientName n) key
                          \<or> str_includes key (normalizeIngredientName n)) CARBON_DATA = None"
    and "inferCategory (normalizeIngredientName n) = None"
  shows "findCarbonData (normalizeIngredientName n)
           = Entry \<lparr>carbon_per_kg = fl (25 / 10), category = ''unknown''\<rparr>
       \<and> map_sum id ingredient_category (footprint (RawIngredient n q hint))
           = Inr (Some ''unknown'')"
  using findCarbonData_fallback[OF assms]
  by (simp add: footprint_RawIngredient ultimate_fallback_def category_of_def)

theorem unmatched_name_absolute_fallback_witness:
  "findCarbonData (normalizeIngredientName ''xyzfoo123'')
           = Entry \<lparr>carbon_per_kg = fl (25 / 10), category = ''unknown''\<rparr>
       \<and> map_sum id ingredient_category (footprint (RawIngredient ''xyzfoo123'' ''100g'' ''meat''))
           = Inr (Some ''unknown'')"
  by (rule unmatched_name_absolute_fallback)
     (simp_all only: normalize_xyzfoo123 xyzfoo_direct xyzfoo_partial xyzfoo_infer)

text \<open>
  Claim C10: two lists of well-typed raw ingredients that agree on every name and every
  quantity string, and differ at most in the category hints, get the same result from
  \<^verbatim>\<open>calculateCarbonFootprint\<close>.
\<close>

theorem calculateCarbonFootprint_ignores_category:
  assumes "map (\<lambda>(n, q, c). (n, q)) xs = map (\<lambda>(n, q, c). (n, q)) ys"
  shows "calculateCarbonFootprint (map (\<lambda>(n, q, c). RawIngredient n q c) xs)
       = calculateCarbonFootprint (map (\<lambda>(n, q, c). RawIngredient n q c) ys)"
  by (simp add: calculate_typed assms)

theorem calculateCarbonFootprint_ignores_category_witness:
  "calculateCarbonFootprint
     [RawIngredient ''chicken'' ''150g'' ''meat'', RawIngredient ''xyzfoo123'' ''1 cup'' ''meat'']
   = calculateCarbonFootprint
     [RawIngredient ''chicken'' ''150g'' ''vegetables'', RawIngredient ''xyzfoo123'' ''1 cup'' '''']"
  using calculateCarbonFootprint_ignores_category
    [of "[(''chicken'', ''150g'', ''meat''), (''xyzfoo123'', ''1 cup'', ''meat'')]"
        "[(''chicken'', ''150g'', ''vegetables''), (''xyzfoo123'', ''1 cup'', '''')]"]
  by simp

subsection \<open>Where the chain is total\<close>

lemma pow2_mono: "e1 \<le> e2 \<Longrightarrow> pow2 e1 \<le> pow2 e2"
proof -
  assume le: "e1 \<le> e2"
  have eq: "pow2 e = 2 powi e" for e
    by (simp add: pow2_def power_int_def field_simps)
  show ?thesis unfolding eq using le by (simp add: power_int_increasing)
qed

lemma ilog2_lower: "0 < a \<Longrightarrow> pow2 (ilog2 a) \<le> a"
proof (cases "1 \<le> a")
  case True
  then have f: "0 < \<lfloor>a\<rfloor>" by simp
  have n: "0 \<le> bitlen \<lfloor>a\<rfloor> - 1"
    using f by (simp add: bitlen_alt_def)
  have "(2::int) ^ nat (bitlen \<lfloor>a\<rfloor> - 1) \<le> \<lfloor>a\<rfloor>"
    using bitlen_bounds[OF f] by simp
  then have "rat_of_int (2 ^ nat (bitlen \<lfloor>a\<rfloor> - 1)) \<le> rat_of_int \<lfloor>a\<rfloor>"
    by (simp only: of_int_le_iff)
  also have "\<dots> \<le> a" by simp
  finally show ?thesis
    using True n by (simp add: ilog2_def pow2_def)
next
  case False
  assume a: "0 < a"
  define c where "c = \<lceil>1 / a\<rceil> - 1"
  from False a have "1 < 1 / a" by simp
  then have c: "0 < c" unfolding c_def by linarith
  then have k: "0 < bitlen c" by (simp add: bitlen_alt_def)
  have "c < 2 ^ nat (bitlen c)" using bitlen_bounds[OF c] by simp
  then have "\<lceil>1 / a\<rceil> \<le> 2 ^ nat (bitlen c)" by (simp add: c_def)
  then have "rat_of_int \<lceil>1 / a\<rceil> \<le> rat_of_int (2 ^ nat (bitlen c))"
    by (simp only: of_int_le_iff)
  moreover have "1 / a \<le> rat_of_int \<lceil>1 / a\<rceil>" by (rule le_of_int_ceiling)
  ultimately have "1 / a \<le> rat_of_int (2 ^ nat (bitlen c))" by (rule order_trans[rotated])
  then have "1 / a \<le> 2 ^ nat (bitlen c)" by simp
  then have "1 / 2 ^ nat (bitlen c) \<le> a"
    using a by (simp add: field_simps)
  then show ?thesis
    using False k by (simp add: ilog2_def pow2_def c_def)
qed

lemma round_half_even_bounds:
  "rat_of_int (round_half_even y) \<le> y + 1" "1 \<le> y \<Longrightarrow> 1 \<le> round_half_even y"
  by (auto simp: round_half_even_def Let_def) linarith+

lemma fl_positive:
  assumes "1 / 1000 \<le> x" "x \<le> 1000"
  shows "\<exists>q. fl x = Fin q \<and> 0 < q"
proof -
  have x: "0 < x" using assms by simp
  define e where "e = max (ilog2 x - 52) (- 1074)"
  define m where "m = round_half_even (x / pow2 e)"
  have p: "0 < pow2 e" by (simp add: pow2_def)
  have "pow2 (ilog2 x - 52) \<le> pow2 (ilog2 x)" by (rule pow2_mono) simp
  then have a: "pow2 (ilog2 x - 52) \<le> x" using ilog2_lower[OF x] by simp
  have b: "pow2 (- 1074) \<le> x"
  proof -
    have "pow2 (- 1074) \<le> pow2 (- 10)" by (rule pow2_mono) simp
    also have "\<dots> \<le> 1 / 1000" by (simp add: pow2_def)
    finally show ?thesis using assms by simp
  qed
  have le: "pow2 e \<le> x" using a b x by (simp add: e_def max_def)
  then have "1 \<le> x / pow2 e" using p x by (simp add: field_simps)
  then have m1: "1 \<le> m" unfolding m_def by (rule round_half_even_bounds)
  then have pos: "0 < rat_of_int m * pow2 e" using p by simp
  have "rat_of_int m \<le> x / pow2 e + 1" unfolding m_def by (rule round_half_even_bounds)
  then have "rat_of_int m * pow2 e \<le> (x / pow2 e + 1) * pow2 e"
    using p by (simp only: mult_le_cancel_right_pos)
  also have "\<dots> = x + pow2 e" using p x by (simp add: field_simps)
  also have "\<dots> \<le> 2000" using le assms by simp
  finally have "\<lfloor>rat_of_int m * pow2 e\<rfloor> \<le> 2000" by (simp add: floor_le_iff)
  moreover have "(2000::int) < 2 ^ 1024" by simp
  ultimately have small: "\<not> (2::int) ^ 1024 \<le> \<lfloor>rat_of_int m * pow2 e\<rfloor>" by linarith
  show ?thesis
    using x pos small by (simp add: fl_def Let_def e_def m_def)
qed


lemma less_zero_fl: "1 / 1000 \<le> x \<Longrightarrow> x \<le> 1000 \<Longrightarrow> less_num (Fin 0) (fl x)"
  using fl_positive[of x] by auto

lemma CARBON_DATA_valid:
  "list_all (\<lambda>(k, f). less_num (Fin 0) (carbon_per_kg f) \<and> category f \<noteq> []) CARBON_DATA"
  by (simp add: CARBON_DATA_def less_zero_fl)

lemma categoryFallbacks_valid:
  "list_all (\<lambda>(c, v). less_num (Fin 0) v \<and> c \<noteq> []) categoryFallbacks"
  by (simp add: categoryFallbacks_def less_zero_fl)

lemma ultimate_fallback_valid:
  "less_num (Fin 0) (carbon_per_kg ultimate_fallback) \<and> category ultimate_fallback \<noteq> []"
  by (simp add: ultimate_fallback_def less_zero_fl)

lemma findCarbonData_valid:
  assumes "k \<notin> set Object_prototype_keys"
  shows "\<exists>f. findCarbonData k = Entry f \<and> less_num (Fin 0) (carbon_per_kg f) \<and> category f \<noteq> []"
proof (cases "map_of CARBON_DATA k")
  case (Some f)
  then have "(k, f) \<in> set CARBON_DATA" by (rule map_of_SomeD)
  then have "less_num (Fin 0) (carbon_per_kg f) \<and> category f \<noteq> []"
    using CARBON_DATA_valid by (auto simp: list_all_iff)
  then show ?thesis using Some by (simp add: findCarbonData_def CARBON_DATA_at_def)
next
  case None
  then have direct: "CARBON_DATA_at k = None"
    using assms by (simp add: CARBON_DATA_at_def)
  show ?thesis
  proof (cases "find (\<lambda>(key, v). str_includes k key \<or> str_includes key k) CARBON_DATA")
    case (Some kv)
    then have "kv \<in> set CARBON_DATA"
      by (metis find_Some_iff nth_mem)
    moreover obtain key v where kv: "kv = (key, v)"
      by (cases kv)
    ultimately have "less_num (Fin 0) (carbon_per_kg v) \<and> category v \<noteq> []"
      using CARBON_DATA_valid by (auto simp: list_all_iff)
    then show ?thesis using direct Some kv by (simp add: findCarbonData_def)
  next
    case partial: None
    show ?thesis
    proof (cases "inferCategory k")
      case None
      then show ?thesis
        using direct partial ultimate_fallback_valid by (simp add: findCarbonData_def)
    next
      case (Some c)
      show ?thesis
      proof (cases "map_of categoryFallbacks c")
        case None
        then show ?thesis
          using direct partial Some ultimate_fallback_valid by (simp add: findCarbonData_def)
      next
        case v: (Some v)
        then have "(c, v) \<in> set categoryFallbacks" by (rule map_of_SomeD)
        then have "less_num (Fin 0) v \<and> c \<noteq> []"
          using categoryFallbacks_valid by (auto simp: list_all_iff)
        then show ?thesis
          using direct partial Some v ultimate_fallback_valid by (simp add: findCarbonData_def)
      qed
    qed
  qed
qed


lemma not_normalized:
  "c \<in> set k \<Longrightarrow> \<not> is_az c \<Longrightarrow> \<not> is_space c \<Longrightarrow> normalizeIngredientName n \<noteq> k"
  using normalized_chars by blast

lemma normalized_inherited_key:
  assumes "normalizeIngredientName n \<in> set Object_prototype_keys"
  shows "normalizeIngredientName n = ''constructor''"
proof -
  have "normalizeIngredientName n \<noteq> ''hasOwnProperty''"
    by (rule not_normalized[of "CHR ''O''"]) (simp_all add: is_az_def is_space_def)
  moreover have "normalizeIngredientName n \<noteq> ''isPrototypeOf''"
    by (rule not_normalized[of "CHR ''P''"]) (simp_all add: is_az_def is_space_def)
  moreover have "normalizeIngredientName n \<noteq> ''propertyIsEnumerable''"
    by (rule not_normalized[of "CHR ''E''"]) (simp_all add: is_az_def is_space_def)
  moreover have "normalizeIngredientName n \<noteq> ''toLocaleString''"
    by (rule not_normalized[of "CHR ''L''"]) (simp_all add: is_az_def is_space_def)
  moreover have "normalizeIngredientName n \<noteq> ''toString''"
    by (rule not_normalized[of "CHR ''S''"]) (simp_all add: is_az_def is_space_def)
  moreover have "normalizeIngredientName n \<noteq> ''valueOf''"
    by (rule not_normalized[of "CHR ''O''"]) (simp_all add: is_az_def is_space_def)
  moreover have "normalizeIngredientName n \<noteq> ''__proto__''"
    by (rule not_normalized[of "CHR ''_''"]) (simp_all add: is_az_def is_space_def)
  moreover have "normalizeIngredientName n \<noteq> ''__defineGetter__''"
    by (rule not_normalized[of "CHR ''_''"]) (simp_all add: is_az_def is_space_def)
  moreover have "normalizeIngredientName n \<noteq> ''__defineSetter__''"
    by (rule not_normalized[of "CHR ''_''"]) (simp_all add: is_az_def is_space_def)
  moreover have "normalizeIngredientName n \<noteq> ''__lookupGetter__''"
    by (rule not_normalized[of "CHR ''_''"]) (simp_all add: is_az_def is_space_def)
  moreover have "normalizeIngredientName n \<noteq> ''__lookupSetter__''"
    by (rule not_normalized[of "CHR ''_''"]) (simp_all add: is_az_def is_space_def)
  ultimately show ?thesis
    using assms unfolding Object_prototype_keys_def by simp
qed

text \<open>
  Claim C2 asks that every name resolve to a factor with a positive \<^verbatim>\<open>carbon_per_kg\<close>
  and a non-empty category.  That holds for every key that \<^verbatim>\<open>Object.prototype\<close> does
  not define (\<open>findCarbonData_valid\<close>).  But the direct match
  \<^verbatim>\<open>CARBON_DATA[ingredientName]\<close> is a plain property read, so the name "constructor"
  (the one inherited key the normalizer can produce, and one it leaves as it is) finds
  \<^verbatim>\<open>Object.prototype.constructor\<close>: a truthy function that is returned as the factor.
  Its \<^verbatim>\<open>carbon_per_kg\<close> and \<^verbatim>\<open>category\<close> are \<^verbatim>\<open>undefined\<close>, and the ingredient comes
  out with \<^verbatim>\<open>carbon_kg\<close> NaN and no category.
\<close>

theorem findCarbonData_constructor:
  "findCarbonData (normalizeIngredientName ''constructor'') = Inherited
   \<and> calculateCarbonFootprint [RawIngredient ''constructor'' ''100g'' ''meat'']
     = Inr [\<lparr>name = ''constructor'', carbon_kg = NaN, quantity = ''100g'',
             ingredient_category = None\<rparr>]"
proof -
  have n: "normalizeIngredientName ''constructor'' = ''constructor''"
    by code_simp
  have f: "findCarbonData ''constructor'' = Inherited"
    by (simp add: chain_eval)
  show ?thesis
    by (simp add: footprint_RawIngredient n f carbon_per_kg_of_def category_of_def round2_def)
qed

section \<open>The quantity parser\<close>

lemma fl_lb: "fl (56699 / 125000) = Fin (1021398381089119 / 2251799813685248)"
  by (simp add: fl_eval)

lemma fl_oz: "fl (56699 / 2000000) = Fin (1021398381089119 / 36028797018963968)"
  by (simp add: fl_eval)

lemma fl_cup: "fl (6 / 25) = Fin (1080863910568919 / 4503599627370496)"
  by (simp add: fl_eval)

lemma fl_tbsp: "fl (3 / 200) = Fin (1080863910568919 / 72057594037927936)"
  by (simp add: fl_eval)

lemma fl_tsp: "fl (1 / 200) = Fin (5764607523034235 / 1152921504606846976)"
  by (simp add: fl_eval)

lemma fl_0_1: "fl (1 / 10) = Fin (3602879701896397 / 36028797018963968)"
  by (simp add: fl_eval)

lemma fl_0_05: "fl (1 / 20) = Fin (3602879701896397 / 72057594037927936)"
  by (simp add: fl_eval)

lemma fl_0_5: "fl (1 / 2) = Fin (1 / 2)"
  by (simp add: fl_eval)

lemma fl_0_2: "fl (1 / 5) = Fin (3602879701896397 / 18014398509481984)"
  by (simp add: fl_eval)

lemmas lit_eval = fl_lb fl_oz fl_cup fl_tbsp fl_tsp fl_0_1 fl_0_05 fl_0_5 fl_0_2

lemmas str_eval =
  toLowerCase_def lower_char_def is_upper_def is_az_def is_digit_def is_space_def trim_def
  strip_plural_def digit_val_def decimal_def

lemmas parse_eval = parseQuantityToKg_def parseFloat_def str_eval fl_eval

lemma pow2_pos: "0 < pow2 e"
  by (simp add: pow2_def)

lemma round_half_even_nonneg: "0 \<le> y \<Longrightarrow> 0 \<le> round_half_even y"
  by (auto simp: round_half_even_def Let_def)

lemma nonneg_Fin: "nonneg (Fin a) = (0 \<le> a)"
  by (simp add: nonneg_def)

lemma fl_nonneg: "0 \<le> x \<Longrightarrow> nonneg (fl x)"
proof -
  assume x: "0 \<le> x"
  define e where "e = max (ilog2 \<bar>x\<bar> - 52) (- 1074)"
  have "0 \<le> \<bar>x\<bar> / pow2 e"
    using pow2_pos[of e] by simp
  then have "0 \<le> rat_of_int (round_half_even (\<bar>x\<bar> / pow2 e)) * pow2 e"
    using round_half_even_nonneg pow2_pos[of e] by simp
  then show ?thesis
    using x by (simp add: fl_def nonneg_def Let_def e_def)
qed

lemma nonneg_cases: "nonneg x \<Longrightarrow> (\<exists>a. x = Fin a \<and> 0 \<le> a) \<or> x = PosInf"
  by (cases x) (auto simp: nonneg_def)

lemma times_nonneg: "nonneg x \<Longrightarrow> 0 < b \<Longrightarrow> nonneg (times_num x (Fin b))"
  using fl_nonneg by (cases x) (auto simp: nonneg_def signed_inf_def)

lemma divide_nonneg: "nonneg x \<Longrightarrow> 0 < b \<Longrightarrow> nonneg (divide_num x (Fin b))"
  using fl_nonneg by (cases x) (auto simp: nonneg_def signed_inf_def)

lemma parseFloat_nonneg: "nonneg (parseFloat m)"
  by (cases m) (simp add: parseFloat_def fl_nonneg)

lemma clamp_band:
  assumes "nonneg x"
  shows "nonneg (Math_max (fl (5 / 100)) (Math_min x (fl (5 / 10))))
       \<and> \<not> less_num (Math_max (fl (5 / 100)) (Math_min x (fl (5 / 10)))) (fl (5 / 100))
       \<and> \<not> less_num (fl (5 / 10)) (Math_max (fl (5 / 100)) (Math_min x (fl (5 / 10))))"
  using nonneg_cases[OF assms]
  by (auto simp: lit_eval Math_max_def Math_min_def nonneg_def)

lemma parseQuantityToKg_nonneg: "nonneg (parseQuantityToKg s)"
proof -
  define q where "q = toLowerCase s"
  define base where
    "base = (case numberMatch q of Some m \<Rightarrow> parseFloat m | None \<Rightarrow> fl (1 / 10))"
  have b: "nonneg base"
    by (simp add: base_def parseFloat_nonneg fl_nonneg split: option.split)
  have c: "nonneg (Math_max (fl (5 / 100)) (Math_min (times_num base (fl (1 / 10))) (fl (5 / 10))))"
    using clamp_band[of "times_num base (fl (1 / 10))"] b by (simp add: lit_eval times_nonneg)
  show ?thesis
    unfolding parseQuantityToKg_def Let_def q_def[symmetric] base_def[symmetric]
    using b c by (simp add: lit_eval times_nonneg divide_nonneg nonneg_Fin)
qed

lemma parse_200g: "parseQuantityToKg ''200g'' = fl (2 / 10)"
  by (simp add: parse_eval)

lemma parse_1kg: "parseQuantityToKg ''1 kg'' = Fin 1"
  by (simp add: parse_eval)

lemma parse_2lb: "parseQuantityToKg ''2 lb'' = Fin (1021398381089119 / 1125899906842624)"
  by (simp add: parse_eval)

lemma parse_150g: "parseQuantityToKg ''150g'' = fl (15 / 100)"
  by (simp add: parse_eval)

subsection \<open>Bounds on the rounding\<close>

lemma round_half_even_near:
  "y - 1 / 2 \<le> rat_of_int (round_half_even y)" "rat_of_int (round_half_even y) \<le> y + 1 / 2"
  by (auto simp: round_half_even_def Let_def) linarith+

lemma round_half_even_zero: "0 \<le> y \<Longrightarrow> y < 1 / 2 \<Longrightarrow> round_half_even y = 0"
proof -
  assume a: "0 \<le> y" "y < 1 / 2"
  then have "\<lfloor>y\<rfloor> = 0" by linarith
  then show ?thesis using a by (simp add: round_half_even_def Let_def)
qed

lemma fl_lower:
  assumes "pow2 (- 1074) \<le> x"
  shows "less_num (Fin 0) (fl x) \<and> (\<forall>q. fl x = Fin q \<longrightarrow> x / 2 \<le> q)"
proof -
  have p0: "0 < pow2 (- 1074)" by (simp add: pow2_def)
  then have x: "0 < x" using assms by simp
  define e where "e = max (ilog2 x - 52) (- 1074)"
  define r where "r = rat_of_int (round_half_even (x / pow2 e)) * pow2 e"
  have p: "0 < pow2 e" by (simp add: pow2_def)
  have "pow2 (ilog2 x - 52) \<le> pow2 (ilog2 x)" by (rule pow2_mono) simp
  then have "pow2 (ilog2 x - 52) \<le> x" using ilog2_lower[OF x] by simp
  then have le: "pow2 e \<le> x" using assms by (simp add: e_def max_def)
  have "(x / pow2 e - 1 / 2) * pow2 e \<le> r"
    unfolding r_def using round_half_even_near(1)[of "x / pow2 e"] p
    by (simp only: mult_le_cancel_right_pos)
  moreover have "(x / pow2 e - 1 / 2) * pow2 e = x - pow2 e / 2"
    using p by (simp add: field_simps)
  ultimately have "x - pow2 e / 2 \<le> r" by simp
  then have r: "x / 2 \<le> r" using le by simp
  then have rpos: "0 < r" using x by simp
  have "fl x = (if (2::int) ^ 1024 \<le> \<lfloor>r\<rfloor> then PosInf else Fin r)"
    using x by (simp add: fl_def Let_def e_def r_def)
  then show ?thesis using r rpos by auto
qed

lemma fl_upper:
  assumes "0 \<le> x" "x \<le> 2 ^ 1000"
  shows "\<exists>q. fl x = Fin q \<and> 0 \<le> q \<and> q \<le> 2 * x + 1"
proof (cases "x = 0")
  case True
  then show ?thesis by (simp add: fl_def)
next
  case False
  then have x: "0 < x" using assms by simp
  define e where "e = max (ilog2 x - 52) (- 1074)"
  define r where "r = rat_of_int (round_half_even (x / pow2 e)) * pow2 e"
  have p: "0 < pow2 e" by (simp add: pow2_def)
  have "pow2 (ilog2 x - 52) \<le> pow2 (ilog2 x)" by (rule pow2_mono) simp
  then have a: "pow2 (ilog2 x - 52) \<le> x" using ilog2_lower[OF x] by simp
  have "pow2 (- 1074) \<le> 1" by (simp add: pow2_def)
  then have le: "pow2 e \<le> x + 1" using a x by (simp add: e_def max_def)
  have "0 \<le> x / pow2 e" using x p by simp
  then have "0 \<le> round_half_even (x / pow2 e)" by (rule round_half_even_nonneg)
  then have r0: "0 \<le> r" unfolding r_def using p by simp
  have "r \<le> (x / pow2 e + 1 / 2) * pow2 e"
    unfolding r_def using round_half_even_near(2)[of "x / pow2 e"] p
    by (simp only: mult_le_cancel_right_pos)
  moreover have "(x / pow2 e + 1 / 2) * pow2 e = x + pow2 e / 2"
    using p by (simp add: field_simps)
  ultimately have "r \<le> x + pow2 e / 2" by simp
  then have r: "r \<le> 2 * x + 1" using le x by simp
  have "(2::rat) * 2 ^ 1000 + 1 < 2 ^ 1024" by simp
  then have "r < 2 ^ 1024" using r assms by linarith
  then have "\<lfloor>r\<rfloor> < 2 ^ 1024" by (simp add: floor_less_iff)
  then have "\<not> (2::int) ^ 1024 \<le> \<lfloor>r\<rfloor>" by simp
  moreover have "fl x = (if (2::int) ^ 1024 \<le> \<lfloor>r\<rfloor> then PosInf else Fin r)"
    using x by (simp add: fl_def Let_def e_def r_def)
  ultimately show ?thesis using r r0 by simp
qed

lemma fl_underflow:
  assumes "0 \<le> x" "x < pow2 (- 1075)"
  shows "fl x = Fin 0"
proof (cases "x = 0")
  case True
  then show ?thesis by (simp add: fl_def)
next
  case False
  then have x: "0 < x" using assms by simp
  have "\<not> - 1075 \<le> ilog2 x"
  proof
    assume "- 1075 \<le> ilog2 x"
    then have "pow2 (- 1075) \<le> pow2 (ilog2 x)" by (rule pow2_mono)
    then show False using ilog2_lower[OF x] assms by simp
  qed
  then have e: "max (ilog2 x - 52) (- 1074) = - 1074" by simp
  have "pow2 (- 1075) = pow2 (- 1074) / 2" by (simp add: pow2_def)
  then have "x / pow2 (- 1074) < 1 / 2" using assms by (simp add: pow2_def field_simps)
  moreover have "0 \<le> x / pow2 (- 1074)" using x by (simp add: pow2_def)
  ultimately have "round_half_even (x / pow2 (- 1074)) = 0" by (simp add: round_half_even_zero)
  then show ?thesis using x by (simp add: fl_def Let_def e)
qed


lemma numeral_value_nonneg: "0 \<le> numeral_value m"
  by (cases m) (simp add: numeral_value_def)

lemma parseFloat_value: "parseFloat m = fl (numeral_value m)"
  by (cases m) (simp add: parseFloat_def numeral_value_def)

lemma scaled_positive:
  assumes v: "1 / 10 ^ 300 \<le> v"
    and r: "r = fl v \<or> r = divide_num (fl v) (Fin 1000)
            \<or> (\<exists>c. 1 / 1000 \<le> c \<and> c \<le> 1 \<and> r = times_num (fl v) (Fin c))"
  shows "less_num (Fin 0) r"
proof -
  have small: "pow2 (- 1074) \<le> 1 / 10 ^ 300 / 2000"
    by (simp add: pow2_def)
  have v0: "pow2 (- 1074) \<le> v" "0 < v"
    using v small by simp_all
  note b = fl_lower[OF v0(1)]
  show ?thesis
  proof (cases "fl v")
    case (Fin a)
    then have a: "v / 2 \<le> a" using b by simp
    have d: "less_num (Fin 0) (fl (a / 1000))"
      using fl_lower[of "a / 1000"] a v small by simp
    have t: "less_num (Fin 0) (fl (a * c))" if "1 / 1000 \<le> c" for c
    proof -
      have "v / 2 * (1 / 1000) \<le> a * c"
        using a that v0(2) by (intro mult_mono) simp_all
      then have "pow2 (- 1074) \<le> a * c" using v small by simp
      then show ?thesis using fl_lower by simp
    qed
    have "0 < a" using a v0(2) by simp
    then show ?thesis using r Fin b d t by auto
  next
    case PosInf
    then show ?thesis using r by (auto simp: signed_inf_def)
  next
    case NegInf
    then show ?thesis using b by simp
  next
    case NaN
    then show ?thesis using b by simp
  qed
qed

lemma scaled_zero:
  assumes v: "0 \<le> v" "v < 1 / 2 ^ 1075"
    and r: "r = fl v \<or> r = divide_num (fl v) (Fin 1000)
            \<or> (\<exists>c. 1 / 1000 \<le> c \<and> c \<le> 1 \<and> r = times_num (fl v) (Fin c))"
  shows "r = Fin 0"
proof -
  have "fl v = Fin 0" using v by (intro fl_underflow) (simp_all add: pow2_def)
  moreover have "fl 0 = Fin 0" by (simp add: fl_def)
  ultimately show ?thesis using r by auto
qed

lemma scaled_finite:
  assumes v: "0 \<le> v" "v \<le> 10 ^ 300"
    and r: "r = fl v \<or> r = divide_num (fl v) (Fin 1000)
            \<or> (\<exists>c. 1 / 1000 \<le> c \<and> c \<le> 1 \<and> r = times_num (fl v) (Fin c))"
  shows "r \<noteq> PosInf"
proof -
  have big: "(2::rat) * 10 ^ 300 + 1 \<le> 2 ^ 1000" by simp
  then have "v \<le> 2 ^ 1000" using v by linarith
  then obtain a where a: "fl v = Fin a" "0 \<le> a" "a \<le> 2 * v + 1"
    using fl_upper[OF v(1)] by blast
  have a2: "a \<le> 2 ^ 1000" using a v big by linarith
  have d: "fl (a / 1000) \<noteq> PosInf"
    using fl_upper[of "a / 1000"] a a2 by auto
  have t: "fl (a * c) \<noteq> PosInf" if "1 / 1000 \<le> c" "c \<le> 1" for c
  proof -
    have c0: "0 \<le> c" using that by simp
    have "a * c \<le> a * 1" using that a by (intro mult_left_mono) simp_all
    then have "a * c \<le> 2 ^ 1000" using a2 by simp
    moreover have "0 \<le> a * c" using c0 a by simp
    ultimately show ?thesis using fl_upper[of "a * c"] by auto
  qed
  from r consider "r = fl v" | "r = divide_num (fl v) (Fin 1000)"
    | c where "1 / 1000 \<le> c" "c \<le> 1" "r = times_num (fl v) (Fin c)"
    by blast
  then show ?thesis
  proof cases
    case 1
    then show ?thesis using a by simp
  next
    case 2
    then show ?thesis using a d by simp
  next
    case 3
    then show ?thesis using a t[OF 3(1,2)] by simp
  qed
qed

lemma unit_factors:
  "\<exists>c. fl (453592 / 1000000) = Fin c \<and> 1 / 1000 \<le> c \<and> c \<le> 1"
  "\<exists>c. fl (283495 / 10000000) = Fin c \<and> 1 / 1000 \<le> c \<and> c \<le> 1"
  "\<exists>c. fl (24 / 100) = Fin c \<and> 1 / 1000 \<le> c \<and> c \<le> 1"
  "\<exists>c. fl (15 / 1000) = Fin c \<and> 1 / 1000 \<le> c \<and> c \<le> 1"
  "\<exists>c. fl (5 / 1000) = Fin c \<and> 1 / 1000 \<le> c \<and> c \<le> 1"
proof -
  show "\<exists>c. fl (453592 / 1000000) = Fin c \<and> 1 / 1000 \<le> c \<and> c \<le> 1"
    by (rule exI[of _ "1021398381089119 / 2251799813685248"]) (simp add: fl_lb)
  show "\<exists>c. fl (283495 / 10000000) = Fin c \<and> 1 / 1000 \<le> c \<and> c \<le> 1"
    by (rule exI[of _ "1021398381089119 / 36028797018963968"]) (simp add: fl_oz)
  show "\<exists>c. fl (24 / 100) = Fin c \<and> 1 / 1000 \<le> c \<and> c \<le> 1"
    by (rule exI[of _ "1080863910568919 / 4503599627370496"]) (simp add: fl_cup)
  show "\<exists>c. fl (15 / 1000) = Fin c \<and> 1 / 1000 \<le> c \<and> c \<le> 1"
    by (rule exI[of _ "1080863910568919 / 72057594037927936"]) (simp add: fl_tbsp)
  show "\<exists>c. fl (5 / 1000) = Fin c \<and> 1 / 1000 \<le> c \<and> c \<le> 1"
    by (rule exI[of _ "5764607523034235 / 1152921504606846976"]) (simp add: fl_tsp)
qed

lemma unit_branches:
  assumes "has_unit_keyword s"
  defines "v \<equiv> (case first_number s of Some x \<Rightarrow> x | None \<Rightarrow> 1 / 10)"
  shows "parseQuantityToKg s = fl v \<or> parseQuantityToKg s = divide_num (fl v) (Fin 1000)
         \<or> (\<exists>c. 1 / 1000 \<le> c \<and> c \<le> 1 \<and> parseQuantityToKg s = times_num (fl v) (Fin c))"
proof -
  define q where "q = toLowerCase s"
  have base: "(case numberMatch q of Some m \<Rightarrow> parseFloat m | None \<Rightarrow> fl (1 / 10)) = fl v"
    by (simp add: v_def first_number_def q_def parseFloat_value split: option.split)
  have u: "str_includes q ''kg'' \<or> str_includes q ''g'' \<or> str_includes q ''lb''
           \<or> str_includes q ''pound'' \<or> str_includes q ''oz'' \<or> str_includes q ''ounce''
           \<or> str_includes q ''cup'' \<or> str_includes q ''tbsp'' \<or> str_includes q ''tablespoon''
           \<or> str_includes q ''tsp'' \<or> str_includes q ''teaspoon''"
    using assms(1) by (simp add: has_unit_keyword_def unit_keywords_def q_def)
  have p: "parseQuantityToKg s =
      (if str_includes q ''kg'' then fl v
       else if str_includes q ''g'' then divide_num (fl v) (Fin 1000)
       else if str_includes q ''lb'' \<or> str_includes q ''pound''
         then times_num (fl v) (fl (453592 / 1000000))
       else if str_includes q ''oz'' \<or> str_includes q ''ounce''
         then times_num (fl v) (fl (283495 / 10000000))
       else if str_includes q ''cup'' then times_num (fl v) (fl (24 / 100))
       else if str_includes q ''tbsp'' \<or> str_includes q ''tablespoon''
         then times_num (fl v) (fl (15 / 1000))
       else times_num (fl v) (fl (5 / 1000)))"
    using u unfolding parseQuantityToKg_def Let_def q_def[symmetric] base
    by auto
  show ?thesis
    unfolding p using unit_factors by (auto split: if_splits)
qed


lemma clamp_positive:
  assumes "nonneg x"
  shows "less_num (Fin 0) (Math_max (fl (5 / 100)) (Math_min x (fl (5 / 10))))"
  using nonneg_cases[OF assms]
  by (auto simp: lit_eval Math_max_def Math_min_def nonneg_def)

lemma no_unit_band:
  assumes "\<not> has_unit_keyword s"
  shows "\<not> less_num (parseQuantityToKg s) (fl (5 / 100))
       \<and> \<not> less_num (fl (5 / 10)) (parseQuantityToKg s)
       \<and> less_num (Fin 0) (parseQuantityToKg s)"
proof -
  define q where "q = toLowerCase s"
  define base where
    "base = (case numberMatch q of Some m \<Rightarrow> parseFloat m | None \<Rightarrow> fl (1 / 10))"
  define clamp where
    "clamp = Math_max (fl (5 / 100)) (Math_min (times_num base (fl (1 / 10))) (fl (5 / 10)))"
  have b: "nonneg (times_num base (fl (1 / 10)))"
    by (simp add: base_def parseFloat_nonneg fl_nonneg lit_eval times_nonneg split: option.split)
  have c: "\<not> less_num clamp (fl (5 / 100)) \<and> \<not> less_num (fl (5 / 10)) clamp
           \<and> less_num (Fin 0) clamp"
    using clamp_band[OF b] clamp_positive[OF b] by (simp add: clamp_def)
  have u: "\<not> str_includes q ''kg''" "\<not> str_includes q ''g''" "\<not> str_includes q ''lb''"
    "\<not> str_includes q ''pound''" "\<not> str_includes q ''oz''" "\<not> str_includes q ''ounce''"
    "\<not> str_includes q ''cup''" "\<not> str_includes q ''tbsp''" "\<not> str_includes q ''tablespoon''"
    "\<not> str_includes q ''tsp''" "\<not> str_includes q ''teaspoon''"
    using assms by (simp_all add: has_unit_keyword_def unit_keywords_def q_def)
  have p: "parseQuantityToKg s =
      (if str_includes q ''small'' then fl (5 / 100)
       else if str_includes q ''medium'' then fl (1 / 10)
       else if str_includes q ''large'' then fl (2 / 10)
       else if str_includes q ''piece'' \<or> str_includes q ''item'' then fl (1 / 10)
       else clamp)"
    unfolding parseQuantityToKg_def Let_def q_def[symmetric] base_def[symmetric]
      clamp_def[symmetric]
    using u by simp
  have w: "\<not> less_num (fl (5 / 100)) (fl (5 / 100)) \<and> \<not> less_num (fl (5 / 10)) (fl (5 / 100))
           \<and> less_num (Fin 0) (fl (5 / 100))"
    "\<not> less_num (fl (1 / 10)) (fl (5 / 100)) \<and> \<not> less_num (fl (5 / 10)) (fl (1 / 10))
           \<and> less_num (Fin 0) (fl (1 / 10))"
    "\<not> less_num (fl (2 / 10)) (fl (5 / 100)) \<and> \<not> less_num (fl (5 / 10)) (fl (2 / 10))
           \<and> less_num (Fin 0) (fl (2 / 10))"
    by (simp_all add: lit_eval)
  show ?thesis
    unfolding p using c w by (simp del: less_num.simps)
qed

subsection \<open>The range of the parser\<close>

text \<open>
  Claim C4, as stated: the parsed mass is strictly positive for every input, "0g" and
  "0 kg" included.  For these two the first number is \<open>0\<close> and a mass unit follows, so
  the result is \<open>0\<close>.
\<close>

theorem parseQuantityToKg_zero:
  "parseQuantityToKg ''0g'' = Fin 0 \<and> \<not> less_num (Fin 0) (parseQuantityToKg ''0g'')
   \<and> parseQuantityToKg ''0 kg'' = Fin 0"
  by (simp add: parse_eval)

text \<open>
  Claim C4, as amended: for every input the parser returns a number that is neither NaN
  nor negative.  Without a unit keyword the result is strictly positive and lies between
  \<open>0.05\<close> and \<open>0.5\<close> (hence it is finite), and it is \<open>0.05\<close> when the input has none of
  the keywords and no number.  With a unit keyword and no number the result is strictly
  positive and finite.  With a unit keyword and a first number \<open>v\<close> the result is \<open>0\<close>
  when \<open>v\<close> is \<open>0\<close> (or any value below \<open>1 / 2 ^ 1075\<close>), strictly positive when \<open>v\<close> is
  at least \<open>1 / 10 ^ 300\<close>, and finite when \<open>v\<close> is at most \<open>10 ^ 300\<close>.
\<close>

theorem parseQuantityToKg_range:
  "nonneg (parseQuantityToKg s)
   \<and> (\<not> has_unit_keyword s \<longrightarrow>
         less_num (Fin 0) (parseQuantityToKg s)
         \<and> \<not> less_num (parseQuantityToKg s) (fl (5 / 100))
         \<and> \<not> less_num (fl (5 / 10)) (parseQuantityToKg s)
         \<and> parseQuantityToKg s \<noteq> PosInf)
   \<and> ((\<forall>k \<in> set quantity_keywords. \<not> str_includes (toLowerCase s) k)
        \<and> first_number s = None
        \<longrightarrow> parseQuantityToKg s = fl (5 / 100))
   \<and> (has_unit_keyword s \<and> first_number s = None \<longrightarrow>
         less_num (Fin 0) (parseQuantityToKg s) \<and> parseQuantityToKg s \<noteq> PosInf)
   \<and> (\<forall>v. has_unit_keyword s \<and> first_number s = Some v \<longrightarrow>
         (v < 1 / 2 ^ 1075 \<longrightarrow> parseQuantityToKg s = Fin 0)
         \<and> (1 / 10 ^ 300 \<le> v \<longrightarrow> less_num (Fin 0) (parseQuantityToKg s))
         \<and> (v \<le> 10 ^ 300 \<longrightarrow> parseQuantityToKg s \<noteq> PosInf))"
proof -
  define q where "q = toLowerCase s"
  define base where
    "base = (case numberMatch q of Some m \<Rightarrow> parseFloat m | None \<Rightarrow> fl (1 / 10))"
  have b: "nonneg (times_num base (fl (1 / 10)))"
    by (simp add: base_def parseFloat_nonneg fl_nonneg lit_eval times_nonneg split: option.split)
  have plain: "parseQuantityToKg s
      = Math_max (fl (5 / 100)) (Math_min (times_num base (fl (1 / 10))) (fl (5 / 10)))"
    if "\<forall>k \<in> set quantity_keywords. \<not> str_includes q k"
    using that
    unfolding parseQuantityToKg_def Let_def q_def[symmetric] base_def[symmetric]
    by (simp add: quantity_keywords_def unit_keywords_def)
  have none: "Math_max (fl (5 / 100)) (Math_min (times_num base (fl (1 / 10))) (fl (5 / 10)))
      = fl (5 / 100)" if "numberMatch q = None"
    using that by (simp add: base_def lit_eval fl_eval Math_max_def Math_min_def)
  have dflt: "parseQuantityToKg s = fl (5 / 100)"
    if "\<forall>k \<in> set quantity_keywords. \<not> str_includes (toLowerCase s) k" "first_number s = None"
    using that plain none by (simp add: q_def first_number_def)
  have u0: "less_num (Fin 0) (parseQuantityToKg s) \<and> parseQuantityToKg s \<noteq> PosInf"
    if h: "has_unit_keyword s" and n: "first_number s = None"
  proof -
    note br = unit_branches[OF h, unfolded n option.case]
    show ?thesis
      using scaled_positive[OF _ br] scaled_finite[OF _ _ br] by simp
  qed
  have uv: "(v < 1 / 2 ^ 1075 \<longrightarrow> parseQuantityToKg s = Fin 0)
         \<and> (1 / 10 ^ 300 \<le> v \<longrightarrow> less_num (Fin 0) (parseQuantityToKg s))
         \<and> (v \<le> 10 ^ 300 \<longrightarrow> parseQuantityToKg s \<noteq> PosInf)"
    if h: "has_unit_keyword s" and n: "first_number s = Some v" for v
  proof -
    note br = unit_branches[OF h, unfolded n option.case]
    have v0: "0 \<le> v"
      using n numeral_value_nonneg by (auto simp: first_number_def)
    show ?thesis
      using scaled_zero[OF v0 _ br] scaled_positive[OF _ br] scaled_finite[OF v0 _ br]
      by blast
  qed
  have fin: "parseQuantityToKg s \<noteq> PosInf" if "\<not> has_unit_keyword s"
    using no_unit_band[OF that] by (auto simp: lit_eval)
  show ?thesis
    using parseQuantityToKg_nonneg[of s] no_unit_band[of s] fin dflt u0 uv by blast
qed

theorem parseQuantityToKg_range_witness:
  "\<not> has_unit_keyword ''a pinch'' \<and> first_number ''a pinch'' = None
   \<and> parseQuantityToKg ''a pinch'' = fl (5 / 100)
   \<and> \<not> has_unit_keyword ''2 Medium'' \<and> less_num (Fin 0) (parseQuantityToKg ''2 Medium'')
   \<and> \<not> less_num (parseQuantityToKg ''2 Medium'') (fl (5 / 100))
   \<and> \<not> less_num (fl (5 / 10)) (parseQuantityToKg ''2 Medium'')
   \<and> parseQuantityToKg ''2 Medium'' \<noteq> PosInf
   \<and> has_unit_keyword ''a cup'' \<and> first_number ''a cup'' = None
   \<and> less_num (Fin 0) (parseQuantityToKg ''a cup'') \<and> parseQuantityToKg ''a cup'' \<noteq> PosInf
   \<and> has_unit_keyword ''0g'' \<and> first_number ''0g'' = Some 0
   \<and> parseQuantityToKg ''0g'' = Fin 0
   \<and> has_unit_keyword ''200g'' \<and> first_number ''200g'' = Some 200
   \<and> less_num (Fin 0) (parseQuantityToKg ''200g'') \<and> parseQuantityToKg ''200g'' \<noteq> PosInf
   \<and> nonneg (parseQuantityToKg ''200g'')"
proof -
  have l: "toLowerCase ''a pinch'' = ''a pinch''" "toLowerCase ''2 Medium'' = ''2 medium''"
    "toLowerCase ''a cup'' = ''a cup''" "toLowerCase ''0g'' = ''0g''"
    "toLowerCase ''200g'' = ''200g''"
    by code_simp+
  have k: "\<forall>k \<in> set quantity_keywords. \<not> str_includes (toLowerCase ''a pinch'') k"
    unfolding l by (simp add: quantity_keywords_def unit_keywords_def)
  have a: "\<not> has_unit_keyword ''a pinch''" "first_number ''a pinch'' = None"
    unfolding has_unit_keyword_def first_number_def l
    by (simp_all add: unit_keywords_def is_digit_def)
  have m: "\<not> has_unit_keyword ''2 Medium''"
    unfolding has_unit_keyword_def l by (simp add: unit_keywords_def)
  have c: "has_unit_keyword ''a cup''" "first_number ''a cup'' = None"
    unfolding has_unit_keyword_def first_number_def l
    by (simp_all add: unit_keywords_def is_digit_def)
  have z: "has_unit_keyword ''0g''" "first_number ''0g'' = Some 0"
    unfolding has_unit_keyword_def first_number_def l
    by (simp_all add: unit_keywords_def numeral_value_def str_eval)
  have t: "has_unit_keyword ''200g''" "first_number ''200g'' = Some 200"
    unfolding has_unit_keyword_def first_number_def l
    by (simp_all add: unit_keywords_def numeral_value_def str_eval)
  have n: "(0::rat) < 1 / 2 ^ 1075" "(1::rat) / 10 ^ 300 \<le> 200" "(200::rat) \<le> 10 ^ 300"
    by simp_all
  have 1: "parseQuantityToKg ''a pinch'' = fl (5 / 100)"
    using parseQuantityToKg_range[of "''a pinch''"] k a by blast
  have 2: "less_num (Fin 0) (parseQuantityToKg ''2 Medium'')
           \<and> \<not> less_num (parseQuantityToKg ''2 Medium'') (fl (5 / 100))
           \<and> \<not> less_num (fl (5 / 10)) (parseQuantityToKg ''2 Medium'')
           \<and> parseQuantityToKg ''2 Medium'' \<noteq> PosInf"
    using parseQuantityToKg_range[of "''2 Medium''"] m by blast
  have 3: "less_num (Fin 0) (parseQuantityToKg ''a cup'') \<and> parseQuantityToKg ''a cup'' \<noteq> PosInf"
    using parseQuantityToKg_range[of "''a cup''"] c by blast
  have 4: "parseQuantityToKg ''0g'' = Fin 0"
    using parseQuantityToKg_range[of "''0g''"] z n(1) by blast
  have 5: "less_num (Fin 0) (parseQuantityToKg ''200g'') \<and> parseQuantityToKg ''200g'' \<noteq> PosInf
           \<and> nonneg (parseQuantityToKg ''200g'')"
    using parseQuantityToKg_range[of "''200g''"] t n(2,3) by blast
  show ?thesis
    by (simp only: a m c z t 1 2 3 4 5 simp_thms)
qed

subsection \<open>The branch for "large"\<close>

lemma startsWith_append: "startsWith s (a @ b) \<Longrightarrow> \<exists>t. s = a @ t \<and> startsWith t b"
  by (induction s a rule: startsWith.induct) auto

lemma str_includes_append_left: "str_includes t k \<Longrightarrow> str_includes (a @ t) k"
  by (induction a) auto

lemma str_includes_suffix:
  assumes "str_includes s (a @ b)"
  shows "str_includes s b"
  using assms
proof (induction s)
  case Nil
  then show ?case by simp
next
  case (Cons c cs)
  from Cons.prems have "startsWith (c # cs) (a @ b) \<or> str_includes cs (a @ b)" by simp
  then show ?case
  proof
    assume "startsWith (c # cs) (a @ b)"
    then obtain t where t: "c # cs = a @ t" "startsWith t b"
      using startsWith_append by blast
    have "str_includes t b" using t(2) by (cases t) (auto elim: startsWith.elims)
    then show ?thesis unfolding t(1) by (rule str_includes_append_left)
  next
    assume "str_includes cs (a @ b)"
    then show ?thesis using Cons.IH by simp
  qed
qed

lemma startsWith_prefix: "startsWith s (a @ b) \<Longrightarrow> startsWith s a"
  by (induction s a rule: startsWith.induct) auto

lemma str_includes_prefix: "str_includes s (a @ b) \<Longrightarrow> str_includes s a"
  by (induction s) (auto dest: startsWith_prefix)

lemma large_contains_g: "str_includes s ''large'' \<Longrightarrow> str_includes s ''g''"
proof -
  assume "str_includes s ''large''"
  then have "str_includes s (''lar'' @ ''ge'')" by simp
  then have "str_includes s (''g'' @ ''e'')" using str_includes_suffix by fastforce
  then show ?thesis by (rule str_includes_prefix)
qed

lemma large_branch_unreachable:
  assumes "str_includes (toLowerCase s) ''large''"
  shows "parseQuantityToKg s =
           (let base = (case numberMatch (toLowerCase s) of
                          Some m \<Rightarrow> parseFloat m | None \<Rightarrow> fl (1 / 10))
            in if str_includes (toLowerCase s) ''kg'' then base
               else divide_num base (Fin 1000))"
  using large_contains_g[OF assms] by (simp add: parseQuantityToKg_def Let_def)

text \<open>
  Claim C5, as stated: a string that contains a size word yields that word's constant.
  The tests run in a fixed order and the first hit decides, so a unit keyword earlier in
  the chain wins over a size word ("1 small cup" is \<open>0.24\<close>); and as every string that
  contains "large" contains "g", the test for "g" always comes first and the branch for
  "large" is never taken (\<open>large_branch_unreachable\<close>; "large" alone is \<open>0.1 / 1000\<close>).
\<close>

theorem size_word_overridden:
  "parseQuantityToKg ''1 small cup'' = fl (24 / 100)
   \<and> parseQuantityToKg ''1 small cup'' \<noteq> fl (5 / 100)
   \<and> parseQuantityToKg ''large'' = fl (1 / 10000)
   \<and> parseQuantityToKg ''large'' \<noteq> fl (2 / 10)"
  by (simp add: parse_eval)

text \<open>
  Claim C5, as amended: for a string with none of the unit keywords, "small" yields
  \<open>0.05\<close> whatever number the string holds; "medium" without "small" yields \<open>0.1\<close>;
  "piece" or "item" without any of the three size words yields \<open>0.1\<close>.  Further
  "200g" is \<open>0.2\<close>, "1 kg" is \<open>1\<close>, and "2 lb" is within \<open>0.001\<close> of \<open>0.907\<close>.
\<close>

theorem parseQuantityToKg_size_words:
  assumes "\<forall>k \<in> set unit_keywords. \<not> str_includes (toLowerCase s) k"
  shows "(str_includes (toLowerCase s) ''small'' \<longrightarrow> parseQuantityToKg s = fl (5 / 100))
       \<and> (\<not> str_includes (toLowerCase s) ''small'' \<and> str_includes (toLowerCase s) ''medium''
            \<longrightarrow> parseQuantityToKg s = fl (1 / 10))
       \<and> (\<not> str_includes (toLowerCase s) ''small'' \<and> \<not> str_includes (toLowerCase s) ''medium''
            \<and> \<not> str_includes (toLowerCase s) ''large''
            \<and> (str_includes (toLowerCase s) ''piece'' \<or> str_includes (toLowerCase s) ''item'')
            \<longrightarrow> parseQuantityToKg s = fl (1 / 10))
       \<and> parseQuantityToKg ''200g'' = fl (2 / 10)
       \<and> parseQuantityToKg ''1 kg'' = Fin 1
       \<and> (\<exists>m. parseQuantityToKg ''2 lb'' = Fin m \<and> \<bar>m - 907 / 1000\<bar> \<le> 1 / 1000)"
proof -
  have "parseQuantityToKg s =
          (if str_includes (toLowerCase s) ''small'' then fl (5 / 100)
           else if str_includes (toLowerCase s) ''medium'' then fl (1 / 10)
           else if str_includes (toLowerCase s) ''large'' then fl (2 / 10)
           else if str_includes (toLowerCase s) ''piece'' \<or> str_includes (toLowerCase s) ''item''
             then fl (1 / 10)
           else parseQuantityToKg s)"
    using assms unfolding parseQuantityToKg_def Let_def
    by (simp add: unit_keywords_def)
  then have sizes:
    "(str_includes (toLowerCase s) ''small'' \<longrightarrow> parseQuantityToKg s = fl (5 / 100))
       \<and> (\<not> str_includes (toLowerCase s) ''small'' \<and> str_includes (toLowerCase s) ''medium''
            \<longrightarrow> parseQuantityToKg s = fl (1 / 10))
       \<and> (\<not> str_includes (toLowerCase s) ''small'' \<and> \<not> str_includes (toLowerCase s) ''medium''
            \<and> \<not> str_includes (toLowerCase s) ''large''
            \<and> (str_includes (toLowerCase s) ''piece'' \<or> str_includes (toLowerCase s) ''item'')
            \<longrightarrow> parseQuantityToKg s = fl (1 / 10))"
    by presburger
  have "\<bar>1021398381089119 / 1125899906842624 - 907 / 1000\<bar> \<le> (1 / 1000 :: rat)"
    by simp
  then have lb: "\<exists>m. parseQuantityToKg ''2 lb'' = Fin m \<and> \<bar>m - 907 / 1000\<bar> \<le> 1 / 1000"
    using parse_2lb by blast
  show ?thesis
    using sizes lb parse_200g parse_1kg by blast
qed

theorem parseQuantityToKg_size_words_witness:
  "str_includes (toLowerCase ''2 Small'') ''small''
   \<and> parseQuantityToKg ''2 Small'' = fl (5 / 100)
   \<and> parseQuantityToKg ''1 medium onion'' = fl (1 / 10)
   \<and> parseQuantityToKg ''2 pieces'' = fl (1 / 10)"
proof -
  have l: "toLowerCase ''2 Small'' = ''2 small''"
    "toLowerCase ''1 medium onion'' = ''1 medium onion''"
    "toLowerCase ''2 pieces'' = ''2 pieces''"
    by code_simp+
  have a: "\<forall>k \<in> set unit_keywords. \<not> str_includes (toLowerCase ''2 Small'') k"
    unfolding l by (simp add: unit_keywords_def)
  have b: "\<forall>k \<in> set unit_keywords. \<not> str_includes (toLowerCase ''1 medium onion'') k"
    unfolding l by (simp add: unit_keywords_def)
  have c: "\<forall>k \<in> set unit_keywords. \<not> str_includes (toLowerCase ''2 pieces'') k"
    unfolding l by (simp add: unit_keywords_def)
  show ?thesis
    using parseQuantityToKg_size_words[OF a] parseQuantityToKg_size_words[OF b]
      parseQuantityToKg_size_words[OF c] a
    unfolding l by simp
qed

section \<open>The aggregator\<close>

lemma normalize_chicken_rice:
  "normalizeIngredientName ''chicken'' = ''chicken''"
  "normalizeIngredientName ''rice'' = ''rice''"
  by code_simp+

lemma find_chicken:
  "findCarbonData ''chicken'' = Entry \<lparr>carbon_per_kg = fl (69 / 10), category = ''meat''\<rparr>"
  by (simp add: findCarbonData_def CARBON_DATA_at_def CARBON_DATA_def)

lemma find_rice:
  "findCarbonData ''rice'' = Entry \<lparr>carbon_per_kg = fl (27 / 10), category = ''grains''\<rparr>"
  by (simp add: findCarbonData_def CARBON_DATA_at_def CARBON_DATA_def)

lemma chicken_carbon: "round2 (times_num (fl (69 / 10)) (fl (15 / 100))) = fl (103 / 100)"
  by (simp add: round2_def fl_eval)

lemma rice_carbon: "round2 (times_num (fl (27 / 10)) (fl (2 / 10))) = fl (54 / 100)"
  by (simp add: round2_def fl_eval)

lemma total_carbon:
  "round2 (plus_num (plus_num (Fin 0) (fl (103 / 100))) (fl (54 / 100))) = fl (157 / 100)"
  by (simp add: round2_def fl_eval)

text \<open>
  Claim C3 gives, for the factors and masses \<open>(6.9, 0.15)\<close> and \<open>(2.7, 0.2)\<close>, the
  half-up values \<open>1.04\<close> and \<open>0.54\<close> and the total \<open>1.58\<close>.  These are chicken at
  "150g" and rice at "200g".  In binary64 the product \<open>6.9 * 0.15\<close> times \<open>100\<close> is the
  double just below \<open>103.5\<close>, which \<^verbatim>\<open>Math.round\<close> takes down to \<open>103\<close>: the code returns
  \<open>1.03\<close> for the chicken and \<open>1.57\<close> for the dish.
\<close>

theorem round2_misses_half_up:
  "calculateCarbonFootprint
     [RawIngredient ''chicken'' ''150g'' ''meat'', RawIngredient ''rice'' ''200g'' ''grains'']
   = Inr [\<lparr>name = ''chicken'', carbon_kg = fl (103 / 100), quantity = ''150g'',
            ingredient_category = Some ''meat''\<rparr>,
          \<lparr>name = ''rice'', carbon_kg = fl (54 / 100), quantity = ''200g'',
            ingredient_category = Some ''grains''\<rparr>]
   \<and> getTotalCarbonFootprint
       [\<lparr>name = ''chicken'', carbon_kg = fl (103 / 100), quantity = ''150g'',
          ingredient_category = Some ''meat''\<rparr>,
        \<lparr>name = ''rice'', carbon_kg = fl (54 / 100), quantity = ''200g'',
          ingredient_category = Some ''grains''\<rparr>]
     = fl (157 / 100)
   \<and> less_num (times_num (times_num (fl (69 / 10)) (fl (15 / 100))) (Fin 100)) (fl (1035 / 10))
   \<and> less_num (fl (103 / 100)) (fl (104 / 100))
   \<and> less_num (fl (157 / 100)) (fl (158 / 100))"
proof -
  have a: "calculateCarbonFootprint
     [RawIngredient ''chicken'' ''150g'' ''meat'', RawIngredient ''rice'' ''200g'' ''grains'']
   = Inr [\<lparr>name = ''chicken'', carbon_kg = fl (103 / 100), quantity = ''150g'',
            ingredient_category = Some ''meat''\<rparr>,
          \<lparr>name = ''rice'', carbon_kg = fl (54 / 100), quantity = ''200g'',
            ingredient_category = Some ''grains''\<rparr>]"
    by (simp only: calculateCarbonFootprint.simps footprint_RawIngredient normalize_chicken_rice
          find_chicken find_rice parse_150g parse_200g carbon_per_kg_of_def category_of_def
          member.case EmissionsFactor.simps chicken_carbon rice_carbon sum.case)
  have b: "getTotalCarbonFootprint
       [\<lparr>name = ''chicken'', carbon_kg = fl (103 / 100), quantity = ''150g'',
          ingredient_category = Some ''meat''\<rparr>,
        \<lparr>name = ''rice'', carbon_kg = fl (54 / 100), quantity = ''200g'',
          ingredient_category = Some ''grains''\<rparr>]
     = fl (157 / 100)"
    by (simp only: getTotalCarbonFootprint_def foldl.simps Ingredient.simps total_carbon)
  have c: "less_num (times_num (times_num (fl (69 / 10)) (fl (15 / 100))) (Fin 100)) (fl (1035 / 10))"
    "less_num (fl (103 / 100)) (fl (104 / 100))" "less_num (fl (157 / 100)) (fl (158 / 100))"
    by (simp_all add: fl_eval)
  show ?thesis using a b c by blast
qed

section \<open>The response validators and the fallback selector\<close>

lemmas validate_eval =
  validateLLMResponse_def validateVisionResponse_def check_confidence_def truthy_def
  truthy_prop_def truthy_num_def typeof_object_def get_prop_def

lemma check_ingredients_accepts:
  "check_ingredients xs = Inr () \<longleftrightarrow>
     list_all (\<lambda>i. i \<noteq> JNull \<and> truthy_prop (get_prop i ''name'')
                   \<and> truthy_prop (get_prop i ''estimated_quantity'')
                   \<and> truthy_prop (get_prop i ''category'')) xs"
  by (induction xs) (auto split: json.splits)

lemma validateLLMResponse_accepts:
  "validateLLMResponse j = Inr () \<longleftrightarrow>
     (\<exists>xs c. get_prop j ''ingredients'' = Some (JArr xs)
        \<and> get_prop j ''confidence'' = Some (JNum c)
        \<and> \<not> less_num c (Fin 0) \<and> \<not> less_num (Fin 1) c
        \<and> list_all (\<lambda>i. i \<noteq> JNull \<and> truthy_prop (get_prop i ''name'')
                   \<and> truthy_prop (get_prop i ''estimated_quantity'')
                   \<and> truthy_prop (get_prop i ''category'')) xs)"
proof (cases j)
  case (JObj kvs)
  then have "truthy j" "typeof_object j" by (simp_all add: truthy_def typeof_object_def)
  then show ?thesis
    by (auto simp: validateLLMResponse_def check_confidence_def check_ingredients_accepts
          split: option.splits json.splits)
qed (auto simp: validateLLMResponse_def get_prop_def truthy_def typeof_object_def)

lemma truthy_prop_string: "truthy_prop (Some (JStr s)) \<longleftrightarrow> s \<noteq> []"
  by (simp add: truthy_prop_def truthy_def)

text \<open>
  Claim C6 asks that a payload be accepted only if every ingredient has \<^verbatim>\<open>name\<close>,
  \<^verbatim>\<open>estimated_quantity\<close> and \<^verbatim>\<open>category\<close> as non-empty strings.  The object, array and
  confidence conditions are enforced (\<open>validateLLMResponse_accepts\<close>), but both
  validators test the three fields for truthiness only (\<^verbatim>\<open>!ingredient.name || ...\<close>),
  whereas \<^verbatim>\<open>dish_name\<close>, next to them, is also tested with \<^verbatim>\<open>typeof\<close>.  A payload
  whose quantity is the number \<open>200\<close> is accepted by both, is returned by
  \<^verbatim>\<open>analyzeDish\<close> as it is, and makes \<^verbatim>\<open>calculateCarbonFootprint\<close> throw on
  \<^verbatim>\<open>quantity.toLowerCase()\<close>.
\<close>

theorem validators_accept_untyped_fields:
  "validateLLMResponse untyped_payload = Inr ()
   \<and> validateVisionResponse
        (JObj [(''dish_name'', JStr ''Rice bowl''),
               (''ingredients'',
                JArr [JObj [(''name'', JStr ''rice''), (''estimated_quantity'', JNum (Fin 200)),
                            (''category'', JStr ''grains'')]]),
               (''confidence'', JNum (fl (9 / 10)))]) = Inr ()
   \<and> analyzeDish ''Rice bowl'' (Payload untyped_payload) = untyped_payload
   \<and> process_dish ''Rice bowl'' (Payload untyped_payload) = Inl TypeError"
proof -
  have v: "validateLLMResponse untyped_payload = Inr ()"
    by (simp add: untyped_payload_def validate_eval fl_eval)
  have w: "validateVisionResponse
        (JObj [(''dish_name'', JStr ''Rice bowl''),
               (''ingredients'',
                JArr [JObj [(''name'', JStr ''rice''), (''estimated_quantity'', JNum (Fin 200)),
                            (''category'', JStr ''grains'')]]),
               (''confidence'', JNum (fl (9 / 10)))]) = Inr ()"
    by (simp add: validate_eval fl_eval)
  have a: "analyzeDish d (Payload untyped_payload) = untyped_payload" for d
    by (simp add: analyzeDish_def v)
  have p: "process_dish d (Payload untyped_payload) = Inl TypeError" for d
    by (simp add: process_dish_def a) (simp add: untyped_payload_def get_prop_def footprint_def)
  show ?thesis using v w a p by blast
qed

theorem validators_accept_untyped_fields_witness:
  "validateLLMResponse untyped_payload = Inr ()
   \<and> process_dish ''Rice bowl'' (Payload untyped_payload) = Inl TypeError"
  using validators_accept_untyped_fields by blast

lemma getFallbackResponse_chain:
  "getFallbackResponse d =
     (if str_includes (toLowerCase d) ''pizza'' then pizza_response
      else if str_includes (toLowerCase d) ''burger'' then burger_response
      else if str_includes (toLowerCase d) ''pasta'' then pasta_response
      else generic_response)"
  by (simp add: getFallbackResponse_def fallbackResponses_def)

text \<open>
  Claim C7: when the completion call fails or its payload is rejected, \<^verbatim>\<open>analyzeDish\<close>
  returns the canned response of the first of the patterns "pizza", "burger", "pasta"
  that occurs in the lower-cased dish name, and the generic response when none does;
  "Pizza Margherita" gets the pizza response, of confidence \<open>0.75\<close>, and "Unicorn tears
  with dragon scales" the generic one, of three ingredients and confidence \<open>0.5\<close>.
\<close>

theorem fallback_selector:
  assumes "inference_failed outcome"
  shows "analyzeDish d outcome =
           (if str_includes (toLowerCase d) ''pizza'' then pizza_response
            else if str_includes (toLowerCase d) ''burger'' then burger_response
            else if str_includes (toLowerCase d) ''pasta'' then pasta_response
            else generic_response)
       \<and> analyzeDish ''Pizza Margherita'' outcome = pizza_response
       \<and> get_prop pizza_response ''confidence'' = Some (JNum (fl (75 / 100)))
       \<and> analyzeDish ''Unicorn tears with dragon scales'' outcome = generic_response
       \<and> generic_response =
           LLMResponse
             [RawIngredient ''mixed ingredients'' ''200g'' ''unknown'',
              RawIngredient ''cooking oil'' ''10g'' ''oils'',
              RawIngredient ''seasonings'' ''5g'' ''seasonings'']
             (fl (5 / 10))"
proof -
  have f: "analyzeDish x outcome = getFallbackResponse x" for x
    using assms
    by (auto simp: inference_failed_def analyzeDish_def split: completion.splits sum.splits)
  have l: "toLowerCase ''Pizza Margherita'' = ''pizza margherita''"
    "toLowerCase ''Unicorn tears with dragon scales'' = ''unicorn tears with dragon scales''"
    by code_simp+
  have p: "getFallbackResponse ''Pizza Margherita'' = pizza_response"
    by (simp add: getFallbackResponse_chain l)
  have u: "getFallbackResponse ''Unicorn tears with dragon scales'' = generic_response"
    by (simp add: getFallbackResponse_chain l)
  have c: "get_prop pizza_response ''confidence'' = Some (JNum (fl (75 / 100)))"
    by (simp add: pizza_response_def LLMResponse_def get_prop_def)
  show ?thesis
    using f getFallbackResponse_chain p u c generic_response_def by presburger
qed

theorem fallback_selector_witness:
  "analyzeDish ''Pizza Margherita'' CallThrows = pizza_response
   \<and> analyzeDish ''Unicorn tears with dragon scales'' (Payload JNull) = generic_response
   \<and> get_prop pizza_response ''confidence'' = Some (JNum (fl (75 / 100)))"
proof -
  have a: "inference_failed CallThrows"
    by (simp add: inference_failed_def)
  have b: "inference_failed (Payload JNull)"
    by (simp add: inference_failed_def validate_eval)
  show ?thesis
    using fallback_selector[OF a, of "''Pizza Margherita''"]
      fallback_selector[OF b, of "''Pizza Margherita''"]
    by blast
qed

section \<open>The batch route\<close>

lemma estimate_batch_Inr:
  assumes "estimate_batch body outcomes = Inr items"
  obtains dishes where "get_prop body ''dishes'' = Some (JArr dishes)"
    and "items = map (\<lambda>i. settle (dish_text (dishes ! i)) (outcomes i)) [0 ..< length dishes]"
  using assms
  by (auto simp: estimate_batch_def split: option.splits json.splits if_splits)

lemma settle_failed: "isl (process_dish d outcome) \<Longrightarrow> settle d outcome = failed_estimate d"
  by (auto simp: settle_def failed_estimate_def split: sum.splits)

text \<open>
  Claim C9: a batch that passes the request checks yields one entry per dish, in the
  order of the dishes; the entry of a dish whose processing fails is the error entry
  (the dish, the error marker, zero carbon, no ingredients, zero confidence); and the
  other entries are what they are whatever the outcome for that dish.
\<close>

theorem batch_partial_failure:
  assumes "estimate_batch body outcomes = Inr items"
  shows "\<exists>dishes. get_prop body ''dishes'' = Some (JArr dishes)
           \<and> length items = length dishes
           \<and> (\<forall>i < length dishes. items ! i = settle (dish_text (dishes ! i)) (outcomes i))
           \<and> (\<forall>k < length dishes.
                 isl (process_dish (dish_text (dishes ! k)) (outcomes k))
                 \<longrightarrow> items ! k = failed_estimate (dish_text (dishes ! k)))
           \<and> (\<forall>k c. \<exists>items'.
                 estimate_batch body (outcomes(k := c)) = Inr items'
                 \<and> length items' = length dishes
                 \<and> (\<forall>j < length dishes. j \<noteq> k \<longrightarrow> items' ! j = items ! j))"
proof -
  from assms obtain dishes where d: "get_prop body ''dishes'' = Some (JArr dishes)"
    and i: "items = map (\<lambda>i. settle (dish_text (dishes ! i)) (outcomes i)) [0 ..< length dishes]"
    by (rule estimate_batch_Inr)
  have ok: "dishes \<noteq> []" "\<not> 10 < length dishes" "list_all valid_dish dishes"
    using assms d by (auto simp: estimate_batch_def split: if_splits)
  have other: "estimate_batch body (outcomes(k := c))
      = Inr (map (\<lambda>i. settle (dish_text (dishes ! i)) ((outcomes(k := c)) i)) [0 ..< length dishes])"
    for k c
    using d ok by (simp add: estimate_batch_def)
  have "\<exists>items'. estimate_batch body (outcomes(k := c)) = Inr items'
          \<and> length items' = length dishes
          \<and> (\<forall>j < length dishes. j \<noteq> k \<longrightarrow> items' ! j = items ! j)" for k c
    unfolding other by (simp add: i)
  then show ?thesis
    using d i settle_failed by auto
qed

theorem batch_partial_failure_witness:
  "\<exists>items. estimate_batch batch_body batch_outcomes = Inr items
     \<and> length items = 2
     \<and> items ! 0 = failed_estimate ''Rice bowl''
     \<and> items ! 1 = settle ''Pizza Margherita'' CallThrows"
proof -
  have t: "trim ''Rice bowl'' = ''Rice bowl''" "trim ''Pizza Margherita'' = ''Pizza Margherita''"
    by code_simp+
  have e: "estimate_batch batch_body batch_outcomes
      = Inr [settle ''Rice bowl'' (batch_outcomes 0),
             settle ''Pizza Margherita'' (batch_outcomes (Suc 0))]"
    by (simp add: estimate_batch_def batch_body_def get_prop_def valid_dish_def t dish_text_def)
  have v: "validateLLMResponse untyped_payload = Inr ()"
    by (simp add: untyped_payload_def validate_eval fl_eval)
  have f: "isl (process_dish ''Rice bowl'' (batch_outcomes 0))"
    by (simp add: batch_outcomes_def process_dish_def analyzeDish_def v)
       (simp add: untyped_payload_def get_prop_def footprint_def)
  from batch_partial_failure[OF e] obtain dishes where
    d: "get_prop batch_body ''dishes'' = Some (JArr dishes)"
    and k: "\<forall>k < length dishes.
                 isl (process_dish (dish_text (dishes ! k)) (batch_outcomes k))
                 \<longrightarrow> [settle ''Rice bowl'' (batch_outcomes 0),
                       settle ''Pizza Margherita'' (batch_outcomes (Suc 0))] ! k
                      = failed_estimate (dish_text (dishes ! k))"
    by blast
  from d have dd: "dishes = [JStr ''Rice bowl'', JStr ''Pizza Margherita'']"
    by (simp add: batch_body_def get_prop_def)
  have z: "settle ''Rice bowl'' (batch_outcomes 0) = failed_estimate ''Rice bowl''"
    using k[rule_format, of 0] f by (simp add: dd dish_text_def)
  show ?thesis
    unfolding e using z by (simp add: batch_outcomes_def)
qed

end
